theory Spec2Isabelle
  imports Complex_Main "HOL-Library.Log_Nat"
begin

section \<open>JavaScript values used by the engine\<close>

text \<open>
  The numbers the engine handles are counts: they are modelled as \<open>nat\<close>, which a
  double holds exactly below \<open>2 ^ 53\<close>. A quotient or a product is computed in double
  precision: the exact result is rounded to 53 significant bits (\<open>double\<close> below).

  \<open>a || b\<close> on numbers yields \<open>b\<close> exactly when \<open>a\<close> is \<open>0\<close> (or absent).
\<close>

definition js_or :: "nat \<Rightarrow> nat \<Rightarrow> nat" where
  "js_or a b = (if a \<noteq> 0 then a else b)"

text \<open>\<open>Math.round\<close>: the nearest integer, a tie going up.\<close>

definition Math_round :: "real \<Rightarrow> int" where
  "Math_round x = \<lfloor>x + 1 / 2\<rfloor>"

text \<open>
  Rounding to double precision, to nearest and a tie to the even significand. For
  \<open>x > 0\<close>, \<open>exponent x\<close> is the \<open>e\<close> with \<open>2 ^ e \<le> x < 2 ^ (e + 1)\<close>, and the doubles
  around \<open>x\<close> are the multiples of \<open>2 ^ (e - 52)\<close>. The range of the exponent is not
  bounded: overflow and gradual underflow, beyond \<open>2 ^ 1024\<close> and below \<open>2 ^ - 1022\<close>,
  are left out.
\<close>

definition exponent :: "real \<Rightarrow> int" where
  "exponent x = (if 1 \<le> x then bitlen \<lfloor>x\<rfloor> - 1 else - bitlen (\<lceil>1 / x\<rceil> - 1))"

definition round_half_even :: "real \<Rightarrow> int" where
  "round_half_even x =
     (let f = \<lfloor>x\<rfloor>; r = x - of_int f
      in if r < 1 / 2 then f else if r > 1 / 2 then f + 1 else if even f then f else f + 1)"

definition double :: "real \<Rightarrow> real" where
  "double x =
     (if x = 0 then 0
      else let ulp = 2 powi (exponent \<bar>x\<bar> - 52)
           in sgn x * (of_int (round_half_even (\<bar>x\<bar> / ulp)) * ulp))"

text \<open>
  \<open>Object.entries\<close> and \<open>Object.values\<close> of an object used as a dictionary: the keys that
  are array indices (the decimal numerals without leading zero below \<open>2 ^ 32 - 1\<close>) come
  first, in ascending order, then the other keys in the order in which they were written.
\<close>

definition decimal_value :: "string \<Rightarrow> nat" where
  "decimal_value s = foldl (\<lambda>n c. 10 * n + (of_char c - 48)) 0 s"

definition is_array_index :: "string \<Rightarrow> bool" where
  "is_array_index s =
     (s \<noteq> [] \<and> list_all (\<lambda>c. c \<in> set ''0123456789'') s \<and> (hd s \<noteq> CHR ''0'' \<or> s = ''0'')
      \<and> decimal_value s < 4294967295)"

definition Object_entries :: "(string \<times> 'v) list \<Rightarrow> (string \<times> 'v) list" where
  "Object_entries m =
     sort_key (\<lambda>e. decimal_value (fst e)) (filter (\<lambda>e. is_array_index (fst e)) m)
     @ filter (\<lambda>e. \<not> is_array_index (fst e)) m"

text \<open>A truthy \<open>string | null\<close> is neither \<open>null\<close> nor the empty string.\<close>

fun truthy :: "string option \<Rightarrow> bool" where
  "truthy None = False"
| "truthy (Some s) = (s \<noteq> [])"

definition digit :: "nat \<Rightarrow> char" where
  "digit n = ''0123456789'' ! n"

fun show_nat :: "nat \<Rightarrow> string" where
  "show_nat n = (if n < 10 then [digit n] else show_nat (n div 10) @ [digit (n mod 10)])"

declare show_nat.simps [simp del]

subsection \<open>Dates\<close>

text \<open>
  A \<open>Date\<close> is its time value, milliseconds since the epoch. The local time zone \<open>tz\<close>
  of the environment and the clock reading \<open>now\<close> (what \<open>new Date()\<close> returns) are
  parameters of every function that reads them. Day numbers count days since 1970-01-01
  in the proleptic Gregorian calendar.
\<close>

type_synonym Date = int

definition msPerDay :: int where
  "msPerDay = 86400000"

text \<open>An ISO date \<open>YYYY-MM-DD\<close>, as its three fields.\<close>

record iso_date =
  iso_year :: int
  iso_month :: int
  iso_day :: int

definition days_from_civil :: "int \<Rightarrow> int \<Rightarrow> int \<Rightarrow> int" where
  "days_from_civil y0 m d =
     (let y = (if m \<le> 2 then y0 - 1 else y0);
          era = y div 400;
          yoe = y - era * 400;
          doy = (153 * (if m > 2 then m - 3 else m + 9) + 2) div 5 + d - 1;
          doe = yoe * 365 + yoe div 4 - yoe div 100 + doy
      in era * 146097 + doe - 719468)"

definition civil_from_days :: "int \<Rightarrow> iso_date" where
  "civil_from_days z0 =
     (let z = z0 + 719468;
          era = z div 146097;
          doe = z - era * 146097;
          yoe = (doe - doe div 1460 + doe div 36524 - doe div 146096) div 365;
          doy = doe - (365 * yoe + yoe div 4 - yoe div 100);
          mp = (5 * doy + 2) div 153;
          d = doy - (153 * mp + 2) div 5 + 1;
          m = (if mp < 10 then mp + 3 else mp - 9)
      in \<lparr>iso_year = (if m \<le> 2 then yoe + era * 400 + 1 else yoe + era * 400),
          iso_month = m, iso_day = d\<rparr>)"

text \<open>\<open>new Date("YYYY-MM-DD")\<close>: a date-only string is midnight UTC.\<close>

definition parse_date :: "iso_date \<Rightarrow> Date" where
  "parse_date d = days_from_civil (iso_year d) (iso_month d) (iso_day d) * msPerDay"

text \<open>
  A time zone has a standard offset, in minutes east of UTC, and daylight saving time,
  which moves the clock forward by one hour. \<open>saving_at\<close> tells whether daylight saving
  time is in force at an instant; \<open>saving_read\<close> tells whether a local wall-clock time
  (milliseconds since the epoch, read as if UTC) is taken as daylight saving time when it
  is converted to an instant. ECMAScript reads a wall-clock time that the clock skips or
  repeats with the offset in force before the transition.
\<close>

record TimeZone =
  standard :: int
  saving_at :: "Date \<Rightarrow> bool"
  saving_read :: "int \<Rightarrow> bool"

definition fixed_zone :: "int \<Rightarrow> TimeZone" where
  "fixed_zone m = \<lparr>standard = m, saving_at = (\<lambda>t. False), saving_read = (\<lambda>t. False)\<rparr>"

text \<open>\<open>LocalTime(t)\<close> and \<open>UTC(t)\<close> of ECMAScript.\<close>

definition LocalTime :: "TimeZone \<Rightarrow> Date \<Rightarrow> int" where
  "LocalTime tz t = t + (standard tz + (if saving_at tz t then 60 else 0)) * 60000"

definition UTC :: "TimeZone \<Rightarrow> int \<Rightarrow> Date" where
  "UTC tz wall = wall - (standard tz + (if saving_read tz wall then 60 else 0)) * 60000"

text \<open>\<open>new Date(year, monthIndex, day)\<close>: local midnight; years 0 to 99 mean 1900 to 1999.\<close>

definition new_Date_local :: "TimeZone \<Rightarrow> int \<Rightarrow> int \<Rightarrow> int \<Rightarrow> Date" where
  "new_Date_local tz year monthIndex day =
     (let y = (if 0 \<le> year \<and> year \<le> 99 then 1900 + year else year)
      in UTC tz (days_from_civil y (monthIndex + 1) day * msPerDay))"

definition local_day :: "TimeZone \<Rightarrow> Date \<Rightarrow> int" where
  "local_day tz t = LocalTime tz t div msPerDay"

definition getFullYear :: "TimeZone \<Rightarrow> Date \<Rightarrow> int" where
  "getFullYear tz t = iso_year (civil_from_days (local_day tz t))"

definition getMonth :: "TimeZone \<Rightarrow> Date \<Rightarrow> nat" where
  "getMonth tz t = nat (iso_month (civil_from_days (local_day tz t)) - 1)"

definition getDay :: "TimeZone \<Rightarrow> Date \<Rightarrow> nat" where
  "getDay tz t = nat ((local_day tz t + 4) mod 7)"

definition getHours :: "TimeZone \<Rightarrow> Date \<Rightarrow> nat" where
  "getHours tz t = nat ((LocalTime tz t mod msPerDay) div 3600000)"

text \<open>\<open>d.setHours(0, 0, 0, 0)\<close>: the local midnight of the local day of \<open>d\<close>.\<close>

definition setHours0 :: "TimeZone \<Rightarrow> Date \<Rightarrow> Date" where
  "setHours0 tz t = UTC tz (local_day tz t * msPerDay)"

text \<open>\<open>d.toISOString().split('T')[0]\<close>: the UTC date of \<open>d\<close>.\<close>

definition toISODate :: "Date \<Rightarrow> iso_date" where
  "toISODate t = civil_from_days (t div msPerDay)"

text \<open>\<open>d.setDate(d.getDate() + 1)\<close>: the same wall-clock time on the next local day.\<close>

definition next_day :: "TimeZone \<Rightarrow> Date \<Rightarrow> Date" where
  "next_day tz t = UTC tz (LocalTime tz t + msPerDay)"

section \<open>Data model\<close>

record GitHubRepo =
  name :: string
  full_name :: string
  html_url :: string
  description :: "string option"
  fork :: bool
  created_at :: Date
  pushed_at :: Date
  stargazers_count :: nat
  language :: "string option"

text \<open>
  Of an event the engine reads its type, the name of its repository, the length of
  \<open>payload.commits\<close> when the payload has one, and its creation time.
\<close>

record GitHubEvent =
  type :: string
  repo_name :: string
  payload_commits :: "nat option"
  ev_created_at :: Date

datatype ContributionLevel =
  NONE | FIRST_QUARTILE | SECOND_QUARTILE | THIRD_QUARTILE | FOURTH_QUARTILE

record ContributionDay =
  date :: iso_date
  contributionCount :: nat
  contributionLevel :: ContributionLevel

record ContributionWeek =
  contributionDays :: "ContributionDay list"

record ContributionCalendar =
  totalContributions :: nat
  weeks :: "ContributionWeek list"

record RepositoryInfo =
  ri_name :: string
  nameWithOwner :: string
  ri_url :: string
  primaryLanguage :: "string option"
  stargazerCount :: nat
  ri_description :: "string option"

record RepoContribution =
  repository :: RepositoryInfo
  contributions_totalCount :: nat

record ContributionData =
  totalCommitContributions :: nat
  totalPullRequestContributions :: nat
  totalIssueContributions :: nat
  totalPullRequestReviewContributions :: nat
  totalRepositoriesWithContributedCommits :: nat
  cd_contributionCalendar :: ContributionCalendar
  commitContributionsByRepository :: "RepoContribution list"

record AllGitHubData =
  repos :: "GitHubRepo list"
  events :: "GitHubEvent list"
  contributionData :: "ContributionData option"
  contributionCalendar :: "ContributionCalendar option"

record LanguageStat =
  ls_name :: string
  ls_count :: nat
  percentage :: int
  color :: string

record RepoStat =
  rs_name :: string
  fullName :: string
  url :: string
  stars :: nat
  commits :: nat
  rs_language :: "string option"
  rs_description :: "string option"

record MonthlyActivity =
  month :: string
  ma_year :: int
  contributions :: nat

text \<open>
  The emoji of the source are named rather than spelt; a trait's label is an emoji
  followed by a space and a text.
\<close>

datatype emoji =
  Technologist | Owl | Bird | Sun | Globe | Target | Biceps | Calendar | PirateFlag
  | Handshake | Sunrise | Bug | Trophy | Ninja

record PersonalityTrait =
  pt_name :: string
  pt_value :: int
  pt_label :: "emoji \<times> string"

record DeveloperPersonality =
  title :: string
  dp_emoji :: emoji
  dp_description :: string
  traits :: "PersonalityTrait list"

record WrappedInsights =
  wi_totalContributions :: nat
  totalCommits :: nat
  totalPRs :: nat
  totalIssues :: nat
  totalReviews :: nat
  repositoriesContributedTo :: nat
  newRepositoriesCreated :: nat
  topRepositories :: "RepoStat list"
  topLanguages :: "LanguageStat list"
  totalLanguages :: nat
  mostProductiveDay :: string
  mostProductiveHour :: nat
  peakHourRange :: string
  activityByDay :: "(string \<times> nat) list"
  activityByHour :: "nat list"
  monthlyActivity :: "MonthlyActivity list"
  longestStreak :: nat
  currentStreak :: nat
  totalActiveDays :: nat
  soloVsTeamScore :: int
  bugSlayerScore :: int
  wi_contributionCalendar :: ContributionCalendar
  personality :: DeveloperPersonality

section \<open>The insights engine\<close>

definition DAYS :: "string list" where
  "DAYS = [''Sunday'', ''Monday'', ''Tuesday'', ''Wednesday'', ''Thursday'', ''Friday'',
           ''Saturday'']"

definition MONTHS :: "string list" where
  "MONTHS = [''Jan'', ''Feb'', ''Mar'', ''Apr'', ''May'', ''Jun'', ''Jul'', ''Aug'', ''Sep'',
             ''Oct'', ''Nov'', ''Dec'']"

text \<open>All days of a calendar, week after week.\<close>

definition calendar_days :: "ContributionCalendar \<Rightarrow> ContributionDay list" where
  "calendar_days cal = concat (map contributionDays (weeks cal))"

subsection \<open>calculateBasicStats\<close>

record BasicStats =
  bs_totalContributions :: nat
  bs_commits :: nat
  prs :: nat
  issues :: nat
  reviews :: nat
  reposContributedTo :: nat

text \<open>The counters of the loop over the events; \<open>reposSet\<close> in insertion order.\<close>

record Tally =
  t_commits :: nat
  t_prs :: nat
  t_issues :: nat
  t_reviews :: nat
  reposSet :: "string list"

definition tally0 :: Tally where
  "tally0 = \<lparr>t_commits = 0, t_prs = 0, t_issues = 0, t_reviews = 0, reposSet = []\<rparr>"

definition tally_event :: "Tally \<Rightarrow> GitHubEvent \<Rightarrow> Tally" where
  "tally_event s e =
     (if type e = ''PushEvent'' then
        s\<lparr>t_commits := t_commits s + (case payload_commits e of None \<Rightarrow> 1 | Some n \<Rightarrow> js_or n 1),
          reposSet := List.insert (repo_name e) (reposSet s)\<rparr>
      else if type e = ''PullRequestEvent'' then
        s\<lparr>t_prs := t_prs s + 1, reposSet := List.insert (repo_name e) (reposSet s)\<rparr>
      else if type e = ''IssuesEvent'' then
        s\<lparr>t_issues := t_issues s + 1, reposSet := List.insert (repo_name e) (reposSet s)\<rparr>
      else if type e = ''PullRequestReviewEvent'' then
        s\<lparr>t_reviews := t_reviews s + 1, reposSet := List.insert (repo_name e) (reposSet s)\<rparr>
      else s)"

definition tally_events :: "GitHubEvent list \<Rightarrow> Tally" where
  "tally_events es = foldl tally_event tally0 es"

definition calendarCommits :: "ContributionCalendar option \<Rightarrow> nat" where
  "calendarCommits cc =
     (case cc of None \<Rightarrow> 0
      | Some cal \<Rightarrow> sum_list (map contributionCount (calendar_days cal)))"

definition calculateBasicStats ::
  "GitHubEvent list \<Rightarrow> ContributionData option \<Rightarrow> ContributionCalendar option \<Rightarrow> BasicStats"
where
  "calculateBasicStats es cd cc =
     (let s = tally_events es in
      case cd of
        Some c \<Rightarrow>
          \<lparr>bs_totalContributions = totalContributions (cd_contributionCalendar c),
           bs_commits = totalCommitContributions c,
           prs = totalPullRequestContributions c,
           issues = totalIssueContributions c,
           reviews = totalPullRequestReviewContributions c,
           reposContributedTo = totalRepositoriesWithContributedCommits c\<rparr>
      | None \<Rightarrow>
          (let finalCommits =
                 (if calendarCommits cc > 0 then calendarCommits cc else t_commits s)
           in \<lparr>bs_totalContributions =
                  js_or (case cc of None \<Rightarrow> 0 | Some cal \<Rightarrow> totalContributions cal)
                        (finalCommits + t_prs s + t_issues s + t_reviews s),
                bs_commits = finalCommits,
                prs = t_prs s,
                issues = t_issues s,
                reviews = t_reviews s,
                reposContributedTo = length (reposSet s)\<rparr>))"

subsection \<open>calculateLanguageStats\<close>

definition LANGUAGE_COLORS :: "(string \<times> string) list" where
  "LANGUAGE_COLORS =
     [(''JavaScript'', ''#f7df1e''), (''TypeScript'', ''#3178c6''), (''Python'', ''#3572A5''),
      (''Java'', ''#b07219''), (''C++'', ''#f34b7d''), (''C'', ''#555555''),
      (''C#'', ''#178600''), (''Go'', ''#00ADD8''), (''Rust'', ''#dea584''),
      (''Ruby'', ''#701516''), (''PHP'', ''#4F5D95''), (''Swift'', ''#F05138''),
      (''Kotlin'', ''#A97BFF''), (''Dart'', ''#00B4AB''), (''Scala'', ''#c22d40''),
      (''Shell'', ''#89e051''), (''HTML'', ''#e34c26''), (''CSS'', ''#563d7c''),
      (''Vue'', ''#41b883''), (''SCSS'', ''#c6538c''), (''Lua'', ''#000080''),
      (''R'', ''#198CE7''), (''Perl'', ''#0298c3''), (''Haskell'', ''#5e5086''),
      (''Elixir'', ''#6e4a7e''), (''Clojure'', ''#db5855''), (''Objective_C'', ''#438eff''),
      (''Default'', ''#8b949e'')]"

definition getLanguageColor :: "string \<Rightarrow> string" where
  "getLanguageColor l =
     (case map_of LANGUAGE_COLORS l of Some c \<Rightarrow> c | None \<Rightarrow> ''#8b949e'')"

text \<open>
  \<open>languageCounts\<close> is an object used as a dictionary; the model keeps its entries in the
  order in which the keys were first written, and \<open>Object_entries\<close> lists them as
  \<open>Object.entries\<close> does.
\<close>

fun bump :: "(string \<times> nat) list \<Rightarrow> string \<Rightarrow> (string \<times> nat) list" where
  "bump [] k = [(k, 1)]"
| "bump ((k', c) # m) k = (if k' = k then (k', c + 1) # m else (k', c) # bump m k)"

definition count_repo :: "(string \<times> nat) list \<Rightarrow> GitHubRepo \<Rightarrow> (string \<times> nat) list" where
  "count_repo m r =
     (case language r of
        None \<Rightarrow> m
      | Some l \<Rightarrow> if l \<noteq> [] \<and> \<not> fork r then bump m l else m)"

definition languageCounts :: "GitHubRepo list \<Rightarrow> (string \<times> nat) list" where
  "languageCounts rs = foldl count_repo [] rs"

definition language_entry :: "nat \<Rightarrow> string \<times> nat \<Rightarrow> LanguageStat" where
  "language_entry totalRepos e =
     \<lparr>ls_name = fst e, ls_count = snd e,
      percentage = Math_round (double (double (real (snd e) / real totalRepos) * 100)),
      color = getLanguageColor (fst e)\<rparr>"

text \<open>
  \<open>sort\<close> with the comparator \<open>b.count - a.count\<close> is a stable sort by descending
  count.
\<close>

definition languages :: "GitHubRepo list \<Rightarrow> LanguageStat list" where
  "languages rs =
     (let totalRepos = sum_list (map snd (Object_entries (languageCounts rs)))
      in sort_key (\<lambda>l. - int (ls_count l))
           (map (language_entry totalRepos) (Object_entries (languageCounts rs))))"

record LanguageStats =
  lst_topLanguages :: "LanguageStat list"
  lst_totalLanguages :: nat

definition calculateLanguageStats :: "GitHubRepo list \<Rightarrow> LanguageStats" where
  "calculateLanguageStats rs =
     \<lparr>lst_topLanguages = take 8 (languages rs), lst_totalLanguages = length (languages rs)\<rparr>"

subsection \<open>calculateTopRepos\<close>

definition item_stat :: "RepoContribution \<Rightarrow> RepoStat" where
  "item_stat item =
     \<lparr>rs_name = ri_name (repository item),
      fullName = nameWithOwner (repository item),
      url = ri_url (repository item),
      stars = stargazerCount (repository item),
      commits = contributions_totalCount item,
      rs_language = (if truthy (primaryLanguage (repository item))
                     then primaryLanguage (repository item) else None),
      rs_description = ri_description (repository item)\<rparr>"

definition repo_stat :: "GitHubRepo \<Rightarrow> RepoStat" where
  "repo_stat r =
     \<lparr>rs_name = name r, fullName = full_name r, url = html_url r,
      stars = stargazers_count r, commits = 0, rs_language = language r,
      rs_description = description r\<rparr>"

definition repo_score :: "GitHubRepo \<Rightarrow> real" where
  "repo_score r =
     double (real (stargazers_count r) + double (real_of_int (pushed_at r) / 1000000000000))"

definition calculateTopRepos :: "GitHubRepo list \<Rightarrow> ContributionData option \<Rightarrow> RepoStat list" where
  "calculateTopRepos rs cd =
     (case cd of
        Some c \<Rightarrow>
          take 6 (sort_key (\<lambda>s. - int (commits s)) (map item_stat (commitContributionsByRepository c)))
      | None \<Rightarrow>
          map repo_stat (take 6 (sort_key (\<lambda>r. - repo_score r) (filter (\<lambda>r. \<not> fork r) rs))))"

subsection \<open>calculateActivityPatterns\<close>

record ActivityPatterns =
  ap_mostProductiveDay :: string
  ap_mostProductiveHour :: nat
  ap_peakHourRange :: string
  ap_activityByDay :: "(string \<times> nat) list"
  ap_activityByHour :: "nat list"
  ap_monthlyActivity :: "MonthlyActivity list"

text \<open>\<open>h[k] += n\<close> on a histogram whose keys \<open>0 .. length h - 1\<close> are all present.\<close>

definition add_at :: "nat list \<Rightarrow> nat \<Rightarrow> nat \<Rightarrow> nat list" where
  "add_at h k n = h[k := h ! k + n]"

definition hourActivity :: "TimeZone \<Rightarrow> GitHubEvent list \<Rightarrow> nat list" where
  "hourActivity tz es =
     foldl (\<lambda>h e. add_at h (getHours tz (ev_created_at e)) 1) (replicate 24 0) es"

text \<open>The weekday and month histograms, filled together.\<close>

definition calendar_day_step ::
  "TimeZone \<Rightarrow> int \<Rightarrow> nat list \<times> nat list \<Rightarrow> ContributionDay \<Rightarrow> nat list \<times> nat list"
where
  "calendar_day_step tz year acc day =
     (let d = parse_date (date day) in
      if getFullYear tz d = year \<and> contributionCount day > 0
      then (add_at (fst acc) (getDay tz d) (contributionCount day),
            add_at (snd acc) (getMonth tz d) (contributionCount day))
      else acc)"

definition event_day_step ::
  "TimeZone \<Rightarrow> nat list \<times> nat list \<Rightarrow> GitHubEvent \<Rightarrow> nat list \<times> nat list"
where
  "event_day_step tz acc e =
     (let d = ev_created_at e in
      (add_at (fst acc) (getDay tz d) 1, add_at (snd acc) (getMonth tz d) 1))"

definition day_month_activity ::
  "TimeZone \<Rightarrow> GitHubEvent list \<Rightarrow> ContributionCalendar option \<Rightarrow> int \<Rightarrow> nat list \<times> nat list"
where
  "day_month_activity tz es calendar year =
     (case calendar of
        Some cal \<Rightarrow>
          foldl (calendar_day_step tz year) (replicate 7 0, replicate 12 0) (calendar_days cal)
      | None \<Rightarrow> foldl (event_day_step tz) (replicate 7 0, replicate 12 0) es)"

text \<open>
  The search for the largest entry of a histogram: \<open>Object.entries\<close> lists integer keys in
  ascending order, and only a strictly larger count replaces the current best.
\<close>

fun most_productive :: "(nat \<times> nat) list \<Rightarrow> nat \<Rightarrow> nat \<Rightarrow> nat" where
  "most_productive [] maxCount best = best"
| "most_productive ((k, c) # es) maxCount best =
     (if c > maxCount then most_productive es c k else most_productive es maxCount best)"

definition entries :: "nat list \<Rightarrow> (nat \<times> nat) list" where
  "entries h = zip [0..<length h] h"

definition formatHour :: "nat \<Rightarrow> string" where
  "formatHour h =
     (if h = 0 then ''12 AM''
      else if h = 12 then ''12 PM''
      else if h > 12 then show_nat (h - 12) @ '' PM'' else show_nat h @ '' AM'')"

definition calculateActivityPatterns ::
  "TimeZone \<Rightarrow> GitHubEvent list \<Rightarrow> ContributionCalendar option \<Rightarrow> int \<Rightarrow> ActivityPatterns"
where
  "calculateActivityPatterns tz es calendar year =
     (let hours = hourActivity tz es;
          dayActivity = fst (day_month_activity tz es calendar year);
          monthlyContributions = snd (day_month_activity tz es calendar year);
          mostProductiveDay = most_productive (entries dayActivity) 0 0;
          mostProductiveHour = most_productive (entries hours) 0 0;
          peakStart = nat (max 0 (int mostProductiveHour - 1));
          peakEnd = min 23 (mostProductiveHour + 1)
      in \<lparr>ap_mostProductiveDay = DAYS ! mostProductiveDay,
          ap_mostProductiveHour = mostProductiveHour,
          ap_peakHourRange = formatHour peakStart @ '' - '' @ formatHour peakEnd,
          ap_activityByDay = map (\<lambda>(dayNum, c). (DAYS ! dayNum, c)) (entries dayActivity),
          ap_activityByHour = hours,
          ap_monthlyActivity =
            map (\<lambda>(index, m). \<lparr>month = m, ma_year = year,
                                contributions = js_or (monthlyContributions ! index) 0\<rparr>)
                (zip [0..<length MONTHS] MONTHS)\<rparr>)"

subsection \<open>calculateStreaks\<close>

record StreakData =
  sd_longestStreak :: nat
  sd_currentStreak :: nat
  sd_totalActiveDays :: nat

record StreakState =
  st_longestStreak :: nat
  st_currentStreak :: nat
  tempStreak :: nat
  st_totalActiveDays :: nat

text \<open>\<open>today\<close> is the local midnight of the clock reading.\<close>

definition diffDays :: "TimeZone \<Rightarrow> Date \<Rightarrow> ContributionDay \<Rightarrow> int" where
  "diffDays tz today day = (today - setHours0 tz (parse_date (date day))) div msPerDay"

definition streak_step ::
  "TimeZone \<Rightarrow> Date \<Rightarrow> StreakState \<Rightarrow> ContributionDay \<Rightarrow> StreakState"
where
  "streak_step tz today s day =
     (if contributionCount day > 0 then
        (let s' = s\<lparr>st_totalActiveDays := st_totalActiveDays s + 1,
                     tempStreak := tempStreak s + 1\<rparr>
         in if diffDays tz today day \<le> 1 then s'\<lparr>st_currentStreak := tempStreak s'\<rparr> else s')
      else s\<lparr>st_longestStreak := max (st_longestStreak s) (tempStreak s), tempStreak := 0\<rparr>)"

text \<open>The flattened days, sorted (stably) by time.\<close>

definition allDays :: "ContributionCalendar \<Rightarrow> ContributionDay list" where
  "allDays cal = sort_key (\<lambda>d. parse_date (date d)) (calendar_days cal)"

definition calculateStreaks ::
  "TimeZone \<Rightarrow> Date \<Rightarrow> ContributionCalendar option \<Rightarrow> StreakData"
where
  "calculateStreaks tz now calendar =
     (case calendar of
        None \<Rightarrow> \<lparr>sd_longestStreak = 0, sd_currentStreak = 0, sd_totalActiveDays = 0\<rparr>
      | Some cal \<Rightarrow>
          (let today = setHours0 tz now;
               s = foldl (streak_step tz today)
                     \<lparr>st_longestStreak = 0, st_currentStreak = 0, tempStreak = 0,
                      st_totalActiveDays = 0\<rparr>
                     (allDays cal)
           in \<lparr>sd_longestStreak = max (st_longestStreak s) (tempStreak s),
               sd_currentStreak = st_currentStreak s,
               sd_totalActiveDays = st_totalActiveDays s\<rparr>))"

subsection \<open>calculateScores\<close>

record Scores =
  soloScore :: int
  sc_bugSlayerScore :: int

definition calculateScores :: "GitHubEvent list \<Rightarrow> GitHubRepo list \<Rightarrow> Scores" where
  "calculateScores es rs =
     (let ownRepos = filter (\<lambda>r. \<not> fork r) rs;
          forkedRepos = filter (\<lambda>r. fork r) rs;
          issues = length (filter (\<lambda>e. type e = ''IssuesEvent'') es);
          prs = length (filter (\<lambda>e. type e = ''PullRequestEvent'') es)
      in \<lparr>soloScore =
            Math_round (double (double (real (length ownRepos)
                                        / real (max 1 (length ownRepos + length forkedRepos)))
                                * 100)),
          sc_bugSlayerScore =
            (if issues + prs > 0
             then Math_round (double (double (real issues / real (issues + prs)) * 100))
             else 50)\<rparr>)"

subsection \<open>calculatePersonality\<close>

definition day_count :: "(string \<times> nat) list \<Rightarrow> string \<Rightarrow> nat" where
  "day_count byDay d = (case map_of byDay d of None \<Rightarrow> 0 | Some c \<Rightarrow> js_or c 0)"

text \<open>\<open>new Set(repos.map((r) => r.language).filter(Boolean))\<close>, and its size.\<close>

definition personality_languages :: "GitHubRepo list \<Rightarrow> string option list" where
  "personality_languages rs = remdups (filter truthy (map language rs))"

definition isNightOwl :: "nat \<Rightarrow> bool" where
  "isNightOwl h = (h \<ge> 20 \<or> h < 6)"

definition isEarlyBird :: "nat \<Rightarrow> bool" where
  "isEarlyBird h = (h \<ge> 5 \<and> h < 10)"

definition isPolyglot :: "GitHubRepo list \<Rightarrow> bool" where
  "isPolyglot rs = (length (personality_languages rs) \<ge> 5)"

definition weekendActivity :: "(string \<times> nat) list \<Rightarrow> nat" where
  "weekendActivity byDay = day_count byDay ''Saturday'' + day_count byDay ''Sunday''"

definition weekdayActivity :: "(string \<times> nat) list \<Rightarrow> nat" where
  "weekdayActivity byDay =
     day_count byDay ''Monday'' + day_count byDay ''Tuesday'' + day_count byDay ''Wednesday''
     + day_count byDay ''Thursday'' + day_count byDay ''Friday''"

definition isWeekendWarrior :: "(string \<times> nat) list \<Rightarrow> bool" where
  "isWeekendWarrior byDay =
     (real (weekendActivity byDay) > double (real (weekdayActivity byDay) * double 0.4))"

definition isSolo :: "Scores \<Rightarrow> bool" where
  "isSolo sc = (soloScore sc > 70)"

definition personality_traits ::
  "GitHubRepo list \<Rightarrow> nat \<Rightarrow> (string \<times> nat) list \<Rightarrow> Scores \<Rightarrow> PersonalityTrait list"
where
  "personality_traits rs h byDay sc =
     [\<lparr>pt_name = (if isNightOwl h then ''Night Owl''
                  else if isEarlyBird h then ''Early Bird'' else ''Daytime Coder''),
       pt_value = (if isNightOwl h then 85 else if isEarlyBird h then 15 else 50),
       pt_label = (if isNightOwl h then (Owl, ''Codes when the moon is out'')
                   else if isEarlyBird h then (Bird, ''Catches the morning commits'')
                   else (Sun, ''Peak performance during sunlight''))\<rparr>,
      \<lparr>pt_name = (if isPolyglot rs then ''Polyglot'' else ''Specialist''),
       pt_value = min 100 (int (length (personality_languages rs)) * 15),
       pt_label = (if isPolyglot rs then (Globe, ''Master of many languages'')
                   else (Target, ''Deep expertise in few''))\<rparr>,
      \<lparr>pt_name = (if isWeekendWarrior byDay then ''Weekend Warrior'' else ''Weekday Wonder''),
       pt_value = (if isWeekendWarrior byDay then 80 else 30),
       pt_label = (if isWeekendWarrior byDay then (Biceps, ''Codes through weekends'')
                   else (Calendar, ''Balanced work schedule''))\<rparr>,
      \<lparr>pt_name = (if isSolo sc then ''Solo Coder'' else ''Team Player''),
       pt_value = soloScore sc,
       pt_label = (if isSolo sc then (PirateFlag, ''Independent creator'')
                   else (Handshake, ''Collaborative spirit''))\<rparr>]"

definition calculatePersonality ::
  "GitHubEvent list \<Rightarrow> GitHubRepo list \<Rightarrow> ActivityPatterns \<Rightarrow> Scores \<Rightarrow> DeveloperPersonality"
where
  "calculatePersonality es rs activity sc =
     (let h = ap_mostProductiveHour activity;
          byDay = ap_activityByDay activity;
          ts = personality_traits rs h byDay sc
      in if isNightOwl h \<and> isPolyglot rs then
           \<lparr>title = ''Nocturnal Polyglot'', dp_emoji = Owl,
            dp_description =
              ''A versatile night owl who masters multiple languages under the moonlight.'',
            traits = ts\<rparr>
         else if isEarlyBird h \<and> isSolo sc then
           \<lparr>title = ''Dawn Pioneer'', dp_emoji = Sunrise,
            dp_description =
              ''An independent creator who catches bugs before anyone else wakes up.'',
            traits = ts\<rparr>
         else if isWeekendWarrior byDay \<and> sc_bugSlayerScore sc > 60 then
           \<lparr>title = ''Weekend Bug Hunter'', dp_emoji = Bug,
            dp_description =
              ''A dedicated problem solver who squashes bugs even on their days off.'',
            traits = ts\<rparr>
         else if isPolyglot rs \<and> \<not> isSolo sc then
           \<lparr>title = ''Open Source Champion'', dp_emoji = Trophy,
            dp_description = ''A collaborative polyglot who contributes across the ecosystem.'',
            traits = ts\<rparr>
         else if isSolo sc \<and> length (personality_languages rs) \<le> 2 then
           \<lparr>title = ''Deep Specialist'', dp_emoji = Target,
            dp_description =
              ''A focused expert who has mastered their chosen technology stack.'',
            traits = ts\<rparr>
         else if isNightOwl h \<and> isWeekendWarrior byDay then
           \<lparr>title = ''Code Ninja'', dp_emoji = Ninja,
            dp_description = ''Strikes when least expected, codes through nights and weekends.'',
            traits = ts\<rparr>
         else
           \<lparr>title = ''Code Crafter'', dp_emoji = Technologist,
            dp_description = ''A balanced developer with diverse skills.'',
            traits = ts\<rparr>)"

subsection \<open>createEmptyCalendar\<close>

definition empty_day :: "Date \<Rightarrow> ContributionDay" where
  "empty_day t = \<lparr>date = toISODate t, contributionCount = 0, contributionLevel = NONE\<rparr>"

text \<open>
  The loop over the days of the year; its state is \<open>currentDate\<close>, the days of
  \<open>currentWeek\<close> and \<open>weeks\<close>.
\<close>

function empty_calendar_loop ::
  "TimeZone \<Rightarrow> Date \<Rightarrow> Date \<Rightarrow> ContributionDay list \<Rightarrow> ContributionWeek list
   \<Rightarrow> ContributionDay list \<times> ContributionWeek list"
where
  "empty_calendar_loop tz endDate currentDate currentWeek ws =
     (if currentDate \<le> endDate then
        (if getDay tz currentDate = 0 \<and> length currentWeek > 0
         then empty_calendar_loop tz endDate (next_day tz currentDate)
                [empty_day currentDate] (ws @ [\<lparr>contributionDays = currentWeek\<rparr>])
         else empty_calendar_loop tz endDate (next_day tz currentDate)
                (currentWeek @ [empty_day currentDate]) ws)
      else (currentWeek, ws))"
  by pat_completeness auto
termination
  by (relation "measure (\<lambda>(tz, endDate, currentDate, currentWeek, ws).
                           nat (endDate + 1 - currentDate))")
     (auto simp: next_day_def LocalTime_def UTC_def msPerDay_def)

declare empty_calendar_loop.simps [simp del]

definition createEmptyCalendar :: "TimeZone \<Rightarrow> int \<Rightarrow> ContributionCalendar" where
  "createEmptyCalendar tz year =
     (let startDate = new_Date_local tz year 0 1;
          endDate = new_Date_local tz year 11 31;
          r = empty_calendar_loop tz endDate startDate [] []
      in \<lparr>totalContributions = 0,
          weeks = (if length (fst r) > 0 then snd r @ [\<lparr>contributionDays = fst r\<rparr>]
                   else snd r)\<rparr>)"

subsection \<open>calculateInsights\<close>

definition yearEvents :: "TimeZone \<Rightarrow> int \<Rightarrow> GitHubEvent list \<Rightarrow> GitHubEvent list" where
  "yearEvents tz year es = filter (\<lambda>e. getFullYear tz (ev_created_at e) = year) es"

definition yearRepos :: "TimeZone \<Rightarrow> int \<Rightarrow> GitHubRepo list \<Rightarrow> GitHubRepo list" where
  "yearRepos tz year rs = filter (\<lambda>r. getFullYear tz (created_at r) = year) rs"

text \<open>\<open>x?.f\<close> read as a number inside \<open>||\<close>: an absent \<open>x\<close> counts as \<open>0\<close>.\<close>

definition opt_field :: "('a \<Rightarrow> nat) \<Rightarrow> 'a option \<Rightarrow> nat" where
  "opt_field f x = (case x of None \<Rightarrow> 0 | Some v \<Rightarrow> f v)"

definition calculateInsights ::
  "TimeZone \<Rightarrow> Date \<Rightarrow> AllGitHubData \<Rightarrow> int \<Rightarrow> WrappedInsights"
where
  "calculateInsights tz now data year =
     (let es = yearEvents tz year (events data);
          cd = contributionData data;
          cc = contributionCalendar data;
          basicStats = calculateBasicStats es cd cc;
          languageStats = calculateLanguageStats (repos data);
          topRepos = calculateTopRepos (repos data) cd;
          activityPatterns = calculateActivityPatterns tz es cc year;
          streaks = calculateStreaks tz now cc;
          scores = calculateScores es (repos data);
          pers = calculatePersonality es (repos data) activityPatterns scores;
          calendar = (case cc of Some cal \<Rightarrow> cal | None \<Rightarrow> createEmptyCalendar tz year)
      in \<lparr>wi_totalContributions =
            js_or (opt_field (\<lambda>c. totalContributions (cd_contributionCalendar c)) cd)
              (js_or (opt_field totalContributions cc) (bs_totalContributions basicStats)),
          totalCommits = js_or (opt_field totalCommitContributions cd) (bs_commits basicStats),
          totalPRs = js_or (opt_field totalPullRequestContributions cd) (prs basicStats),
          totalIssues = js_or (opt_field totalIssueContributions cd) (issues basicStats),
          totalReviews =
            js_or (opt_field totalPullRequestReviewContributions cd) (reviews basicStats),
          repositoriesContributedTo =
            js_or (opt_field totalRepositoriesWithContributedCommits cd)
              (reposContributedTo basicStats),
          newRepositoriesCreated = length (yearRepos tz year (repos data)),
          topRepositories = topRepos,
          topLanguages = lst_topLanguages languageStats,
          totalLanguages = lst_totalLanguages languageStats,
          mostProductiveDay = ap_mostProductiveDay activityPatterns,
          mostProductiveHour = ap_mostProductiveHour activityPatterns,
          peakHourRange = ap_peakHourRange activityPatterns,
          activityByDay = ap_activityByDay activityPatterns,
          activityByHour = ap_activityByHour activityPatterns,
          monthlyActivity = ap_monthlyActivity activityPatterns,
          longestStreak = sd_longestStreak streaks,
          currentStreak = sd_currentStreak streaks,
          totalActiveDays = sd_totalActiveDays streaks,
          soloVsTeamScore = soloScore scores,
          bugSlayerScore = sc_bugSlayerScore scores,
          wi_contributionCalendar = calendar,
          personality = pers\<rparr>)"

section \<open>The paginated fetchers\<close>

text \<open>
  What \<open>fetch\<close> settles with: a response with its status and the list in its body, or a
  rejection. A promise is modelled by its outcome, \<open>Inl\<close> the error it rejects with and
  \<open>Inr\<close> the value it resolves to. The server is a function from the page number asked
  for to what comes back; every fetcher also returns the pages it asked for, in order.
  The bookkeeping of the rate limit and the text of the error messages are left out.
\<close>

datatype 'a response = Response nat "'a list" | Rejected

datatype fetch_error = GitHubApiError nat "string option" | FetchRejected

definition NotFound :: fetch_error where
  "NotFound = GitHubApiError 404 (Some ''NOT_FOUND'')"

definition RateLimited :: fetch_error where
  "RateLimited = GitHubApiError 403 (Some ''RATE_LIMITED'')"

fun fetchGitHub :: "'a response \<Rightarrow> fetch_error + 'a list" where
  "fetchGitHub Rejected = Inl FetchRejected"
| "fetchGitHub (Response status body) =
     (if \<not> (200 \<le> status \<and> status \<le> 299) then
        (if status = 404 then Inl NotFound
         else if status = 403 then Inl RateLimited
         else Inl (GitHubApiError status None))
      else Inr body)"

definition perPage :: nat where
  "perPage = 100"

function fetchUserRepos_loop ::
  "(nat \<Rightarrow> 'a response) \<Rightarrow> nat \<Rightarrow> 'a list \<Rightarrow> nat \<Rightarrow> nat list
   \<Rightarrow> (fetch_error + 'a list) \<times> nat list"
where
  "fetchUserRepos_loop server maxRepos rs page asked =
     (if length rs < maxRepos then
        (case fetchGitHub (server page) of
           Inl e \<Rightarrow> (Inl e, asked @ [page])
         | Inr pageRepos \<Rightarrow>
             if length pageRepos = 0 then (Inr rs, asked @ [page])
             else if length pageRepos < perPage then (Inr (rs @ pageRepos), asked @ [page])
             else fetchUserRepos_loop server maxRepos (rs @ pageRepos) (page + 1)
                    (asked @ [page]))
      else (Inr rs, asked))"
  by pat_completeness auto
termination
proof (relation "measure (\<lambda>(server, maxRepos, rs, page, asked). maxRepos - length rs)")
  show "wf (measure (\<lambda>(server :: nat \<Rightarrow> 'a response, maxRepos, rs, page :: nat,
                            asked :: nat list). maxRepos - length rs))"
    by simp
next
  fix server :: "nat \<Rightarrow> 'a response" and maxRepos page :: nat and rs pageRepos :: "'a list"
    and asked :: "nat list"
  assume "length rs < maxRepos" and "length pageRepos \<noteq> 0"
  then have "maxRepos - length (rs @ pageRepos) < maxRepos - length rs"
    by (cases pageRepos) auto
  then show "((server, maxRepos, rs @ pageRepos, page + 1, asked @ [page]),
              (server, maxRepos, rs, page, asked))
             \<in> measure (\<lambda>(server, maxRepos, rs, page, asked). maxRepos - length rs)"
    by simp
qed

declare fetchUserRepos_loop.simps [simp del]

definition fetchUserRepos ::
  "(nat \<Rightarrow> 'a response) \<Rightarrow> nat \<Rightarrow> (fetch_error + 'a list) \<times> nat list"
where
  "fetchUserRepos server maxRepos =
     (case fetchUserRepos_loop server maxRepos [] 1 [] of
        (Inl e, asked) \<Rightarrow> (Inl e, asked)
      | (Inr rs, asked) \<Rightarrow> (Inr (take maxRepos rs), asked))"

text \<open>The \<open>catch\<close> of the events loop turns every failure of a page into a \<open>break\<close>.\<close>

function fetchUserEvents_loop ::
  "(nat \<Rightarrow> 'a response) \<Rightarrow> nat \<Rightarrow> 'a list \<Rightarrow> nat \<Rightarrow> nat list \<Rightarrow> 'a list \<times> nat list"
where
  "fetchUserEvents_loop server maxEvents es page asked =
     (if length es < maxEvents \<and> page \<le> 3 then
        (case fetchGitHub (server page) of
           Inl e \<Rightarrow> (es, asked @ [page])
         | Inr pageEvents \<Rightarrow>
             if length pageEvents = 0 then (es, asked @ [page])
             else fetchUserEvents_loop server maxEvents (es @ pageEvents) (page + 1)
                    (asked @ [page]))
      else (es, asked))"
  by pat_completeness auto
termination
  by (relation "measure (\<lambda>(server, maxEvents, es, page, asked). 4 - page)") auto

declare fetchUserEvents_loop.simps [simp del]

definition fetchUserEvents ::
  "(nat \<Rightarrow> 'a response) \<Rightarrow> nat \<Rightarrow> (fetch_error + 'a list) \<times> nat list"
where
  "fetchUserEvents server maxEvents =
     (case fetchUserEvents_loop server maxEvents [] 1 [] of
        (es, asked) \<Rightarrow> (Inr es, asked))"

section \<open>The rule table of the specification\<close>

text \<open>
  The classifier as the specification words it: an ordered list of (predicate, title)
  pairs over the traits, evaluated from the top, the first match winning.
\<close>

record trait_valuation =
  nightOwl :: bool
  earlyBird :: bool
  polyglot :: bool
  weekendWarrior :: bool
  solo :: bool
  bugSlayer :: int
  distinctLanguages :: nat

definition rule_table :: "((trait_valuation \<Rightarrow> bool) \<times> string) list" where
  "rule_table =
     [(\<lambda>v. nightOwl v \<and> polyglot v, ''Nocturnal Polyglot''),
      (\<lambda>v. earlyBird v \<and> solo v, ''Dawn Pioneer''),
      (\<lambda>v. weekendWarrior v \<and> bugSlayer v > 60, ''Weekend Bug Hunter''),
      (\<lambda>v. polyglot v \<and> \<not> solo v, ''Open Source Champion''),
      (\<lambda>v. solo v \<and> distinctLanguages v \<le> 2, ''Deep Specialist''),
      (\<lambda>v. nightOwl v \<and> weekendWarrior v, ''Code Ninja'')]"

fun first_match :: "(('v \<Rightarrow> bool) \<times> 't) list \<Rightarrow> 't \<Rightarrow> 'v \<Rightarrow> 't" where
  "first_match [] dflt v = dflt"
| "first_match ((p, t) # rules) dflt v = (if p v then t else first_match rules dflt v)"

text \<open>The traits as \<open>calculatePersonality\<close> computes them from its arguments.\<close>

definition valuation :: "GitHubRepo list \<Rightarrow> ActivityPatterns \<Rightarrow> Scores \<Rightarrow> trait_valuation" where
  "valuation rs activity sc =
     \<lparr>nightOwl = isNightOwl (ap_mostProductiveHour activity),
      earlyBird = isEarlyBird (ap_mostProductiveHour activity),
      polyglot = isPolyglot rs,
      weekendWarrior = isWeekendWarrior (ap_activityByDay activity),
      solo = isSolo sc,
      bugSlayer = sc_bugSlayerScore sc,
      distinctLanguages = length (personality_languages rs)\<rparr>"


section \<open>The event tallies, declaratively\<close>

definition count_type :: "string \<Rightarrow> GitHubEvent list \<Rightarrow> nat" where
  "count_type ty es = length (filter (\<lambda>e. type e = ty) es)"

text \<open>A push counts for the number of its commits, and for one when it lists none.\<close>

definition push_weight :: "GitHubEvent \<Rightarrow> nat" where
  "push_weight e = (case payload_commits e of None \<Rightarrow> 1 | Some n \<Rightarrow> js_or n 1)"

definition push_commits :: "GitHubEvent list \<Rightarrow> nat" where
  "push_commits es = sum_list (map push_weight (filter (\<lambda>e. type e = ''PushEvent'') es))"

definition counted_types :: "string list" where
  "counted_types = [''PushEvent'', ''PullRequestEvent'', ''IssuesEvent'', ''PullRequestReviewEvent'']"

definition event_repos :: "GitHubEvent list \<Rightarrow> string set" where
  "event_repos es = repo_name ` {e \<in> set es. type e \<in> set counted_types}"

section \<open>Repository counts and language sets, declaratively\<close>

definition ownRepoCount :: "GitHubRepo list \<Rightarrow> nat" where
  "ownRepoCount rs = length (filter (\<lambda>r. \<not> fork r) rs)"

definition forkedRepoCount :: "GitHubRepo list \<Rightarrow> nat" where
  "forkedRepoCount rs = length (filter (\<lambda>r. fork r) rs)"



section \<open>Active days, declaratively\<close>

text \<open>The day number of a calendar day's date, and those of the days with contributions.\<close>

definition day_number :: "ContributionDay \<Rightarrow> int" where
  "day_number d = days_from_civil (iso_year (date d)) (iso_month (date d)) (iso_day (date d))"

definition active_day_numbers :: "ContributionCalendar \<Rightarrow> int list" where
  "active_day_numbers cal =
     map day_number (filter (\<lambda>d. contributionCount d > 0) (calendar_days cal))"

section \<open>Language percentages, declaratively\<close>



section \<open>Pages, declaratively\<close>

text \<open>The items of a page that was fetched successfully; none for a page that failed.\<close>

definition page_items :: "(nat \<Rightarrow> 'a response) \<Rightarrow> nat \<Rightarrow> 'a list" where
  "page_items server page = (case fetchGitHub (server page) of Inl e \<Rightarrow> [] | Inr b \<Rightarrow> b)"

section \<open>Sample inputs\<close>

definition lang_repo :: "string \<Rightarrow> bool \<Rightarrow> GitHubRepo" where
  "lang_repo l f =
     \<lparr>name = l, full_name = l, html_url = [], description = None, fork = f, created_at = 0,
      pushed_at = 0, stargazers_count = 0, language = Some l\<rparr>"

definition five_forks :: "GitHubRepo list" where
  "five_forks = map (\<lambda>l. lang_repo l True) [''Go'', ''Rust'', ''C'', ''Java'', ''Lua'']"

definition night_activity :: ActivityPatterns where
  "night_activity =
     \<lparr>ap_mostProductiveDay = ''Sunday'', ap_mostProductiveHour = 22,
      ap_peakHourRange = ''9 PM - 11 PM'', ap_activityByDay = [], ap_activityByHour = [],
      ap_monthlyActivity = []\<rparr>"

text \<open>Noon UTC of 2024-06-10, a Monday.\<close>

definition t_2024_06_10 :: Date where
  "t_2024_06_10 = 1718020800000"

definition push3 :: GitHubEvent where
  "push3 = \<lparr>type = ''PushEvent'', repo_name = ''ada/engine'', payload_commits = Some 3,
            ev_created_at = t_2024_06_10\<rparr>"

definition day_of :: "int \<Rightarrow> int \<Rightarrow> int \<Rightarrow> nat \<Rightarrow> ContributionDay" where
  "day_of y m d c =
     \<lparr>date = \<lparr>iso_year = y, iso_month = m, iso_day = d\<rparr>, contributionCount = c,
      contributionLevel = (if c = 0 then NONE else FIRST_QUARTILE)\<rparr>"

definition calendar_of :: "nat \<Rightarrow> ContributionDay list \<Rightarrow> ContributionCalendar" where
  "calendar_of n ds = \<lparr>totalContributions = n, weeks = [\<lparr>contributionDays = ds\<rparr>]\<rparr>"

definition summary_of :: "nat \<Rightarrow> nat \<Rightarrow> ContributionData" where
  "summary_of n k =
     \<lparr>totalCommitContributions = n, totalPullRequestContributions = n,
      totalIssueContributions = n, totalPullRequestReviewContributions = n,
      totalRepositoriesWithContributedCommits = n,
      cd_contributionCalendar = calendar_of k [],
      commitContributionsByRepository = []\<rparr>"

text \<open>A summary whose total is 0 beside a fallback calendar whose total is 5.\<close>

definition data_zero_summary :: AllGitHubData where
  "data_zero_summary =
     \<lparr>repos = [], events = [], contributionData = Some (summary_of 0 0),
      contributionCalendar = Some (calendar_of 5 [day_of 2024 6 10 5])\<rparr>"

text \<open>No summary, a calendar without contributions, and one push of three commits.\<close>

definition data_zero_calendar :: AllGitHubData where
  "data_zero_calendar =
     \<lparr>repos = [], events = [push3], contributionData = None,
      contributionCalendar = Some (calendar_of 0 [day_of 2024 6 10 0])\<rparr>"

definition data_summary :: AllGitHubData where
  "data_summary =
     \<lparr>repos = [], events = [push3], contributionData = Some (summary_of 7 40),
      contributionCalendar = Some (calendar_of 5 [day_of 2024 6 10 5])\<rparr>"

definition data_calendar :: AllGitHubData where
  "data_calendar =
     \<lparr>repos = [], events = [push3], contributionData = None,
      contributionCalendar = Some (calendar_of 5 [day_of 2024 6 10 5])\<rparr>"

definition data_events :: AllGitHubData where
  "data_events =
     \<lparr>repos = [], events = [push3], contributionData = None, contributionCalendar = None\<rparr>"


definition data_two_own :: AllGitHubData where
  "data_two_own =
     \<lparr>repos = [lang_repo ''Go'' False, lang_repo ''Rust'' False, lang_repo ''C'' True],
      events = [], contributionData = None,
      contributionCalendar = Some (calendar_of 0 [])\<rparr>"

text \<open>
  Central European Time in 2024: daylight saving time from 2024-03-31T01:00Z to
  2024-10-27T01:00Z, that is from 03:00 to 03:00 on the local clock.
\<close>

definition europe_berlin_2024 :: TimeZone where
  "europe_berlin_2024 =
     \<lparr>standard = 60,
      saving_at = (\<lambda>t. 1711846800000 \<le> t \<and> t < 1729990800000),
      saving_read = (\<lambda>t. 1711854000000 \<le> t \<and> t < 1729998000000)\<rparr>"

text \<open>10:00 UTC of 2024-04-01, noon in Berlin.\<close>

definition t_2024_04_01 :: Date where
  "t_2024_04_01 = 1711965600000"

text \<open>Contributions on 2024-03-29 and 2024-03-30 and none on the two days after.\<close>

definition data_march_streak :: AllGitHubData where
  "data_march_streak =
     \<lparr>repos = [], events = [], contributionData = None,
      contributionCalendar =
        Some (calendar_of 2 [day_of 2024 3 29 1, day_of 2024 3 30 1, day_of 2024 3 31 0,
                             day_of 2024 4 1 0])\<rparr>"

text \<open>Contributions on 2024-06-09 and 2024-06-10.\<close>

definition data_fresh_streak :: AllGitHubData where
  "data_fresh_streak =
     \<lparr>repos = [], events = [], contributionData = None,
      contributionCalendar = Some (calendar_of 2 [day_of 2024 6 9 1, day_of 2024 6 10 1])\<rparr>"

text \<open>Two repositories in Go and one in Rust, none of them a fork.\<close>

definition data_ada :: AllGitHubData where
  "data_ada =
     \<lparr>repos = [lang_repo ''Go'' False, lang_repo ''Go'' False, lang_repo ''Rust'' False],
      events = [], contributionData = None,
      contributionCalendar = Some (calendar_of 0 [])\<rparr>"

text \<open>Forty repositories, 17 of them forks.\<close>

definition data_23_of_40 :: AllGitHubData where
  "data_23_of_40 =
     \<lparr>repos = replicate 23 (lang_repo ''Go'' False) @ replicate 17 (lang_repo ''C'' True),
      events = [], contributionData = None,
      contributionCalendar = Some (calendar_of 0 [])\<rparr>"


text \<open>A server whose every page is full, and one whose first page holds 30 items.\<close>

definition server_full :: "nat \<Rightarrow> nat response" where
  "server_full page = Response 200 (replicate 100 page)"

definition server_short :: "nat \<Rightarrow> nat response" where
  "server_short page = (if page = 1 then Response 200 (replicate 30 page) else Response 200 [])"

text \<open>A server whose first page is full and whose later pages fail with status 500.\<close>

definition server_fails_second :: "nat \<Rightarrow> nat response" where
  "server_fails_second page =
     (if page = 1 then Response 200 (replicate 100 page) else Response 500 [])"

text \<open>A server that answers 404 to every request.\<close>

definition server_404 :: "nat \<Rightarrow> nat response" where
  "server_404 page = Response 404 []"

section \<open>Verification\<close>

subsection \<open>Double precision\<close>

lemma exponent_lower:
  assumes "0 < x"
  shows "2 powi exponent x \<le> x"
proof (cases "1 \<le> x")
  case True
  then have n: "0 < \<lfloor>x\<rfloor>" by simp
  from bitlen_bounds [OF n] have "2 ^ nat (bitlen \<lfloor>x\<rfloor> - 1) \<le> \<lfloor>x\<rfloor>" by simp
  then have "2 ^ nat (bitlen \<lfloor>x\<rfloor> - 1) \<le> real_of_int \<lfloor>x\<rfloor>"
    by (metis of_int_le_iff of_int_numeral of_int_power)
  also have "\<dots> \<le> x" by simp
  finally have "2 ^ nat (bitlen \<lfloor>x\<rfloor> - 1) \<le> x" .
  moreover from n have "bitlen \<lfloor>x\<rfloor> - 1 \<ge> 0"
    by (simp add: bitlen_alt_def)
  ultimately show ?thesis using True
    by (simp add: exponent_def power_int_def)
next
  case False
  define m where "m = \<lceil>1 / x\<rceil>"
  define k where "k = bitlen (m - 1)"
  from False assms have "1 < 1 / x" by simp
  then have m2: "2 \<le> m" unfolding m_def by linarith
  then have pos: "0 < m - 1" by simp
  from bitlen_bounds [OF pos] have "m - 1 < 2 ^ nat k" by (simp add: k_def)
  then have "m \<le> 2 ^ nat k" by simp
  then have "real_of_int m \<le> 2 ^ nat k" by simp
  moreover have "1 / x \<le> real_of_int m" unfolding m_def by simp
  ultimately have "1 / x \<le> 2 ^ nat k" by linarith
  with assms have "1 / 2 ^ nat k \<le> x"
    by (simp add: field_simps)
  moreover have "2 powi (- k) = 1 / (2 :: real) ^ nat k"
  proof -
    have "0 \<le> k" by (simp add: k_def bitlen_nonneg)
    have "(2 :: real) powi (- k) = inverse (2 powi k)" by (rule power_int_minus)
    also have "\<dots> = 1 / 2 ^ nat k" using \<open>0 \<le> k\<close> by (simp add: power_int_def field_simps)
    finally show ?thesis .
  qed
  ultimately show ?thesis using False
    by (simp add: exponent_def m_def [symmetric] k_def [symmetric])
qed

lemma exponent_upper:
  assumes "0 < x"
  shows "x < 2 powi (exponent x + 1)"
proof (cases "1 \<le> x")
  case True
  then have n: "0 < \<lfloor>x\<rfloor>" by simp
  from bitlen_bounds [OF n] have "\<lfloor>x\<rfloor> < 2 ^ nat (bitlen \<lfloor>x\<rfloor>)" by simp
  then have "\<lfloor>x\<rfloor> + 1 \<le> 2 ^ nat (bitlen \<lfloor>x\<rfloor>)" by simp
  then have "real_of_int (\<lfloor>x\<rfloor> + 1) \<le> 2 ^ nat (bitlen \<lfloor>x\<rfloor>)"
    by (metis of_int_le_iff of_int_numeral of_int_power)
  moreover have "x < real_of_int (\<lfloor>x\<rfloor> + 1)" by linarith
  ultimately have "x < 2 ^ nat (bitlen \<lfloor>x\<rfloor>)" by linarith
  moreover have "bitlen \<lfloor>x\<rfloor> \<ge> 0" by (rule bitlen_nonneg)
  ultimately show ?thesis using True
    by (simp add: exponent_def power_int_def)
next
  case False
  define m where "m = \<lceil>1 / x\<rceil>"
  define k where "k = bitlen (m - 1)"
  from False assms have "1 < 1 / x" by simp
  then have m2: "2 \<le> m" unfolding m_def by linarith
  then have pos: "0 < m - 1" by simp
  from pos have k1: "1 \<le> k" by (simp add: k_def bitlen_alt_def)
  from bitlen_bounds [OF pos] have "2 ^ nat (k - 1) \<le> m - 1" by (simp add: k_def)
  then have "2 ^ nat (k - 1) \<le> real_of_int (m - 1)"
    by (metis of_int_le_iff of_int_numeral of_int_power)
  moreover have "real_of_int (m - 1) < 1 / x" unfolding m_def by linarith
  ultimately have "2 ^ nat (k - 1) < 1 / x" by linarith
  with assms have "x < 1 / 2 ^ nat (k - 1)"
    by (simp add: field_simps)
  moreover have "2 powi (- k + 1) = 1 / (2 :: real) ^ nat (k - 1)"
  proof -
    have "(2 :: real) powi (- k + 1) = 2 powi (- (k - 1))" by simp
    also have "\<dots> = inverse (2 powi (k - 1))" by (rule power_int_minus)
    also have "\<dots> = 1 / 2 ^ nat (k - 1)" using k1 by (simp add: power_int_def field_simps)
    finally show ?thesis .
  qed
  ultimately show ?thesis using False
    by (simp add: exponent_def m_def [symmetric] k_def [symmetric])
qed

lemma round_half_even_error: "\<bar>real_of_int (round_half_even y) - y\<bar> \<le> 1 / 2"
  unfolding round_half_even_def Let_def by (auto; linarith)

text \<open>The relative error of a rounding is at most \<open>2 ^ - 53\<close>.\<close>

lemma double_error: "\<bar>double x - x\<bar> \<le> \<bar>x\<bar> / 2 ^ 53"
proof (cases "x = 0")
  case True
  then show ?thesis by (simp add: double_def)
next
  case False
  define a where "a = \<bar>x\<bar>"
  define u where "u = (2 :: real) powi (exponent a - 52)"
  from False have apos: "0 < a" by (simp add: a_def)
  have upos: "0 < u" by (simp add: u_def)
  have u: "u = 2 powi exponent a / 2 ^ 52"
    by (simp add: u_def power_int_diff)
  have d: "double x = sgn x * (real_of_int (round_half_even (a / u)) * u)"
    using False by (simp add: double_def Let_def a_def u_def)
  have "x = sgn x * a" by (simp add: a_def sgn_mult_abs)
  then have "double x - x = sgn x * (real_of_int (round_half_even (a / u)) * u - a)"
    by (simp add: d algebra_simps)
  then have "\<bar>double x - x\<bar> = \<bar>real_of_int (round_half_even (a / u)) * u - a\<bar>"
    using False by (simp add: abs_mult abs_sgn_eq)
  also have "\<dots> = \<bar>real_of_int (round_half_even (a / u)) - a / u\<bar> * u"
  proof -
    have "real_of_int (round_half_even (a / u)) * u - a
          = (real_of_int (round_half_even (a / u)) - a / u) * u"
      using upos by (simp add: field_simps)
    then show ?thesis using upos by (simp add: abs_mult)
  qed
  also have "\<dots> \<le> 1 / 2 * u"
    using upos round_half_even_error [of "a / u"] by (intro mult_right_mono) simp_all
  also have "\<dots> = 2 powi exponent a / 2 ^ 53"
    by (simp add: u)
  also have "\<dots> \<le> a / 2 ^ 53"
    using exponent_lower [OF apos] by (simp add: divide_right_mono)
  finally show ?thesis by (simp add: a_def)
qed

text \<open>The two roundings of \<open>(a / b) * 100\<close>.\<close>

lemma double_percent_error:
  assumes "0 \<le> x"
  shows "\<bar>double (double x * 100) - 100 * x\<bar> \<le> 300 * x / 2 ^ 53"
proof -
  define y where "y = double x"
  have e1: "\<bar>y - x\<bar> \<le> x / 2 ^ 53"
    using double_error [of x] assms by (simp add: y_def)
  then have y2: "\<bar>y\<bar> \<le> 2 * x"
  proof -
    have "x / 2 ^ 53 \<le> x" using assms by (simp add: field_simps)
    with e1 show ?thesis by linarith
  qed
  have e2: "\<bar>double (y * 100) - y * 100\<bar> \<le> \<bar>y * 100\<bar> / 2 ^ 53"
    by (rule double_error)
  have "\<bar>y * 100\<bar> / 2 ^ 53 \<le> 200 * x / 2 ^ 53"
    using y2 by (simp add: abs_mult divide_right_mono)
  with e2 have e3: "\<bar>double (y * 100) - y * 100\<bar> \<le> 200 * x / 2 ^ 53"
    by linarith
  from e1 have e4: "\<bar>y * 100 - 100 * x\<bar> \<le> 100 * x / 2 ^ 53"
    by linarith
  from e3 e4 have "\<bar>double (y * 100) - 100 * x\<bar> \<le> 200 * x / 2 ^ 53 + 100 * x / 2 ^ 53"
    by linarith
  then show ?thesis by (simp add: y_def)
qed

lemma Math_round_error: "\<bar>real_of_int (Math_round x) - x\<bar> \<le> 1 / 2"
  unfolding Math_round_def by linarith

lemma double_exact: "double 0 = 0" "double 1 = 1" "double 100 = 100"
  by (simp add: double_def, code_simp, code_simp)

subsection \<open>The entries of an object\<close>






subsection \<open>The personality classifier\<close>

text \<open>
  Claim C7. The title \<open>calculatePersonality\<close> returns is the title of the first rule of
  the six-rule table, read in the listed order, whose predicate holds of the traits, and
  \<open>Code Crafter\<close> when none holds. In particular, traits that satisfy rule 1 (night owl and
  polyglot) and rule 4 (polyglot and not solo) together get rule 1's title,
  \<open>Nocturnal Polyglot\<close>.
\<close>

theorem personality_first_match:
  "title (calculatePersonality es rs activity sc)
     = first_match rule_table ''Code Crafter'' (valuation rs activity sc)
   \<and> (isNightOwl (ap_mostProductiveHour activity) \<and> isPolyglot rs
        \<and> isPolyglot rs \<and> \<not> isSolo sc
      \<longrightarrow> title (calculatePersonality es rs activity sc) = ''Nocturnal Polyglot'')"
  by (auto simp: calculatePersonality_def rule_table_def valuation_def Let_def)

theorem personality_first_match_witness:
  "isNightOwl (ap_mostProductiveHour night_activity) \<and> isPolyglot five_forks
   \<and> \<not> isSolo \<lparr>soloScore = 0, sc_bugSlayerScore = 50\<rparr>
   \<and> title (calculatePersonality [] five_forks night_activity
              \<lparr>soloScore = 0, sc_bugSlayerScore = 50\<rparr>) = ''Nocturnal Polyglot''"
proof -
  have h: "isNightOwl (ap_mostProductiveHour night_activity) \<and> isPolyglot five_forks
           \<and> isPolyglot five_forks \<and> \<not> isSolo \<lparr>soloScore = 0, sc_bugSlayerScore = 50\<rparr>"
    by code_simp
  with personality_first_match [of "[]" five_forks night_activity
         "\<lparr>soloScore = 0, sc_bugSlayerScore = 50\<rparr>"]
  show ?thesis by blast
qed

subsection \<open>The loop over the events\<close>

lemma tally_prs: "t_prs (foldl tally_event s es) = t_prs s + count_type ''PullRequestEvent'' es"
  by (induction es arbitrary: s) (simp_all add: tally_event_def count_type_def)

lemma tally_issues: "t_issues (foldl tally_event s es) = t_issues s + count_type ''IssuesEvent'' es"
  by (induction es arbitrary: s) (simp_all add: tally_event_def count_type_def)

lemma tally_reviews:
  "t_reviews (foldl tally_event s es) = t_reviews s + count_type ''PullRequestReviewEvent'' es"
  by (induction es arbitrary: s) (simp_all add: tally_event_def count_type_def)

lemma tally_commits: "t_commits (foldl tally_event s es) = t_commits s + push_commits es"
  by (induction es arbitrary: s) (simp_all add: tally_event_def push_commits_def push_weight_def)

lemma tally_repos_distinct:
  "distinct (reposSet s) \<Longrightarrow> distinct (reposSet (foldl tally_event s es))"
  by (induction es arbitrary: s) (simp_all add: tally_event_def)

lemma tally_repos_set:
  "set (reposSet (foldl tally_event s es)) = set (reposSet s) \<union> event_repos es"
  by (induction es arbitrary: s) (auto simp: tally_event_def event_repos_def counted_types_def)

lemma tally_repos: "length (reposSet (tally_events es)) = card (event_repos es)"
proof -
  have "distinct (reposSet (tally_events es))"
    unfolding tally_events_def by (rule tally_repos_distinct) (simp add: tally0_def)
  then have "length (reposSet (tally_events es)) = card (set (reposSet (tally_events es)))"
    by (simp add: distinct_card)
  then show ?thesis
    by (simp add: tally_events_def tally_repos_set tally0_def)
qed

lemma tally_events_fields:
  "t_commits (tally_events es) = push_commits es"
  "t_prs (tally_events es) = count_type ''PullRequestEvent'' es"
  "t_issues (tally_events es) = count_type ''IssuesEvent'' es"
  "t_reviews (tally_events es) = count_type ''PullRequestReviewEvent'' es"
  by (simp_all add: tally_events_def tally_commits tally_prs tally_issues tally_reviews tally0_def)

subsection \<open>The basic counters\<close>

text \<open>
  Claim C1, as stated, fails twice. With a summary whose calendar total is 0 and a fallback
  calendar whose total is 5, the total contributions reported are 5, not the summary's 0.
  With no summary and a calendar whose day counts sum to 0, a push of three commits makes
  the commit count 3, not the sum 0.
\<close>

theorem basic_counters_counterexample:
  "contributionData data_zero_summary = Some (summary_of 0 0)
   \<and> wi_totalContributions (calculateInsights (fixed_zone 0) 0 data_zero_summary 2024)
       \<noteq> totalContributions (cd_contributionCalendar (summary_of 0 0))
   \<and> contributionData data_zero_calendar = None
   \<and> contributionCalendar data_zero_calendar = Some (calendar_of 0 [day_of 2024 6 10 0])
   \<and> totalCommits (calculateInsights (fixed_zone 0) 0 data_zero_calendar 2024)
       \<noteq> sum_list (map contributionCount (calendar_days (calendar_of 0 [day_of 2024 6 10 0])))"
  by code_simp

text \<open>
  Claim C1, amended. The tallies are taken over the events of the requested year.
  With a summary, commits, pull requests, issues, reviews and repositories contributed to
  are the summary's fields, and the total is the total of the summary's calendar unless
  that is 0, when it is the fallback calendar's total (0 without one).
  Without a summary but with a calendar, the commit count is the sum of the calendar's day
  counts when that sum is positive and the tally of the pushes otherwise; pull requests,
  issues, reviews and repositories are tallied from the events, and the total is the
  calendar's total unless that is 0, when it is the sum of the four counters.
  With neither, every counter is the event tally and the total is their sum.
\<close>

theorem basic_counters:
  "(contributionData data = Some c \<longrightarrow>
      totalCommits (calculateInsights tz now data year) = totalCommitContributions c
    \<and> totalPRs (calculateInsights tz now data year) = totalPullRequestContributions c
    \<and> totalIssues (calculateInsights tz now data year) = totalIssueContributions c
    \<and> totalReviews (calculateInsights tz now data year) = totalPullRequestReviewContributions c
    \<and> repositoriesContributedTo (calculateInsights tz now data year)
        = totalRepositoriesWithContributedCommits c
    \<and> wi_totalContributions (calculateInsights tz now data year)
        = (if totalContributions (cd_contributionCalendar c) \<noteq> 0
           then totalContributions (cd_contributionCalendar c)
           else opt_field totalContributions (contributionCalendar data)))
   \<and> (contributionData data = None \<and> contributionCalendar data = Some cal \<longrightarrow>
      totalCommits (calculateInsights tz now data year)
        = (if sum_list (map contributionCount (calendar_days cal)) > 0
           then sum_list (map contributionCount (calendar_days cal))
           else push_commits (yearEvents tz year (events data)))
    \<and> totalPRs (calculateInsights tz now data year)
        = count_type ''PullRequestEvent'' (yearEvents tz year (events data))
    \<and> totalIssues (calculateInsights tz now data year)
        = count_type ''IssuesEvent'' (yearEvents tz year (events data))
    \<and> totalReviews (calculateInsights tz now data year)
        = count_type ''PullRequestReviewEvent'' (yearEvents tz year (events data))
    \<and> repositoriesContributedTo (calculateInsights tz now data year)
        = card (event_repos (yearEvents tz year (events data)))
    \<and> wi_totalContributions (calculateInsights tz now data year)
        = (if totalContributions cal \<noteq> 0 then totalContributions cal
           else totalCommits (calculateInsights tz now data year)
                + totalPRs (calculateInsights tz now data year)
                + totalIssues (calculateInsights tz now data year)
                + totalReviews (calculateInsights tz now data year)))
   \<and> (contributionData data = None \<and> contributionCalendar data = None \<longrightarrow>
      totalCommits (calculateInsights tz now data year)
        = push_commits (yearEvents tz year (events data))
    \<and> totalPRs (calculateInsights tz now data year)
        = count_type ''PullRequestEvent'' (yearEvents tz year (events data))
    \<and> totalIssues (calculateInsights tz now data year)
        = count_type ''IssuesEvent'' (yearEvents tz year (events data))
    \<and> totalReviews (calculateInsights tz now data year)
        = count_type ''PullRequestReviewEvent'' (yearEvents tz year (events data))
    \<and> repositoriesContributedTo (calculateInsights tz now data year)
        = card (event_repos (yearEvents tz year (events data)))
    \<and> wi_totalContributions (calculateInsights tz now data year)
        = totalCommits (calculateInsights tz now data year)
          + totalPRs (calculateInsights tz now data year)
          + totalIssues (calculateInsights tz now data year)
          + totalReviews (calculateInsights tz now data year))"
proof (intro conjI impI)
  assume "contributionData data = Some c"
  then show "wi_totalContributions (calculateInsights tz now data year)
        = (if totalContributions (cd_contributionCalendar c) \<noteq> 0
           then totalContributions (cd_contributionCalendar c)
           else opt_field totalContributions (contributionCalendar data))"
    by (simp add: calculateInsights_def calculateBasicStats_def Let_def opt_field_def js_or_def)
qed (auto simp add: calculateInsights_def calculateBasicStats_def Let_def opt_field_def js_or_def
       calendarCommits_def tally_events_fields tally_repos simp del: sum_list_eq_0_iff)

theorem basic_counters_witness:
  "contributionData data_summary = Some (summary_of 7 40)
   \<and> totalCommits (calculateInsights (fixed_zone 0) 0 data_summary 2024) = 7
   \<and> wi_totalContributions (calculateInsights (fixed_zone 0) 0 data_summary 2024) = 40
   \<and> contributionData data_calendar = None
   \<and> contributionCalendar data_calendar = Some (calendar_of 5 [day_of 2024 6 10 5])
   \<and> totalCommits (calculateInsights (fixed_zone 0) 0 data_calendar 2024) = 5
   \<and> contributionData data_events = None \<and> contributionCalendar data_events = None
   \<and> totalCommits (calculateInsights (fixed_zone 0) 0 data_events 2024) = push_commits [push3]"
proof -
  have a: "contributionData data_summary = Some (summary_of 7 40)"
    by (simp add: data_summary_def)
  have b: "contributionData data_calendar = None
           \<and> contributionCalendar data_calendar = Some (calendar_of 5 [day_of 2024 6 10 5])"
    by (simp add: data_calendar_def)
  have c: "contributionData data_events = None \<and> contributionCalendar data_events = None"
    by (simp add: data_events_def)
  have s: "sum_list (map contributionCount (calendar_days (calendar_of 5 [day_of 2024 6 10 5]))) = 5"
    by (simp add: calendar_days_def calendar_of_def day_of_def)
  have y: "yearEvents (fixed_zone 0) 2024 (events data_events) = [push3]"
    by code_simp
  have t: "totalCommitContributions (summary_of 7 40) = 7
           \<and> totalContributions (cd_contributionCalendar (summary_of 7 40)) = 40"
    by (simp add: summary_of_def calendar_of_def)
  from a b c s y t
    basic_counters [of data_summary "summary_of 7 40" "fixed_zone 0" 0 2024 "calendar_of 5 [day_of 2024 6 10 5]"]
    basic_counters [of data_calendar "summary_of 7 40" "fixed_zone 0" 0 2024 "calendar_of 5 [day_of 2024 6 10 5]"]
    basic_counters [of data_events "summary_of 7 40" "fixed_zone 0" 0 2024 "calendar_of 5 [day_of 2024 6 10 5]"]
  show ?thesis by simp
qed

subsection \<open>The solo score\<close>

lemma insights_soloScore:
  "soloVsTeamScore (calculateInsights tz now data year)
     = Math_round (double (double (real (ownRepoCount (repos data))
                     / real (max 1 (ownRepoCount (repos data) + forkedRepoCount (repos data))))
                   * 100))"
  by (simp add: calculateInsights_def calculateScores_def Let_def ownRepoCount_def
        forkedRepoCount_def)

lemma own_plus_forked: "ownRepoCount rs + forkedRepoCount rs = length rs"
  by (induction rs) (simp_all add: ownRepoCount_def forkedRepoCount_def)

text \<open>
  A rounded percentage of a part of fewer than \<open>2 ^ 32\<close> items is an integer nearest to
  the exact percentage.
\<close>

lemma rounded_percent_nearest:
  assumes "a \<le> b" and "0 < b" and "b < 4294967296"
  shows "2 * \<bar>int b * Math_round (double (double (real a / real b) * 100)) - 100 * int a\<bar>
           \<le> int b"
proof -
  define x where "x = real a / real b"
  define y where "y = double (double x * 100)"
  define p where "p = Math_round y"
  from assms have x01: "0 \<le> x" "x \<le> 1"
    by (simp_all add: x_def)
  have "\<bar>y - 100 * x\<bar> \<le> 300 * x / 2 ^ 53"
    unfolding y_def using x01(1) by (rule double_percent_error)
  also have "\<dots> \<le> 300 / 2 ^ 53"
    using x01(2) by simp
  finally have ey: "\<bar>y - 100 * x\<bar> \<le> 300 / 2 ^ 53" .
  have ep: "\<bar>real_of_int p - y\<bar> \<le> 1 / 2"
    unfolding p_def by (rule Math_round_error)
  from ey ep have e: "\<bar>real_of_int p - 100 * x\<bar> \<le> 1 / 2 + 300 / 2 ^ 53"
    by linarith
  have bx: "real b * x = real a"
    unfolding x_def using assms(2) by simp
  have "real b * (real_of_int p - 100 * x) = real b * real_of_int p - 100 * (real b * x)"
    by (simp add: right_diff_distrib)
  then have "real b * real_of_int p - 100 * real a = real b * (real_of_int p - 100 * x)"
    by (simp only: bx)
  then have "\<bar>real b * real_of_int p - 100 * real a\<bar> = real b * \<bar>real_of_int p - 100 * x\<bar>"
    by (simp add: abs_mult)
  also have "\<dots> \<le> real b * (1 / 2 + 300 / 2 ^ 53)"
    using e by (intro mult_left_mono) simp_all
  finally have "2 * \<bar>real b * real_of_int p - 100 * real a\<bar> \<le> real b + real b * (600 / 2 ^ 53)"
    by (simp add: algebra_simps)
  moreover have "real b * (600 / 2 ^ 53) < 1"
  proof -
    from assms(3) have "real b \<le> 4294967296" by simp
    then have "real b * (600 / 2 ^ 53) \<le> 4294967296 * (600 / 2 ^ 53)"
      by (intro mult_right_mono) simp_all
    also have "\<dots> < 1" by simp
    finally show ?thesis .
  qed
  ultimately have "2 * \<bar>real b * real_of_int p - 100 * real a\<bar> < real b + 1"
    by linarith
  then have "real_of_int (2 * \<bar>int b * p - 100 * int a\<bar>) < real_of_int (int b + 1)"
    by simp
  then have "2 * \<bar>int b * p - 100 * int a\<bar> < int b + 1"
    by (simp only: of_int_less_iff)
  then show ?thesis
    by (simp add: p_def y_def x_def)
qed

text \<open>
  Claim C4, as stated, fails on the empty list of repositories: it has no fork, and its
  score is 0, not 100.
\<close>

theorem solo_score_counterexample:
  "forkedRepoCount (repos data_events) = 0
   \<and> soloVsTeamScore (calculateInsights (fixed_zone 0) 0 data_events 2024) \<noteq> 100"
  by code_simp

text \<open>
  Claim C4, amended. For a list with at least one repository the score is
  \<open>round(ownRepoCount / (ownRepoCount + forkedRepoCount) * 100)\<close> as double precision
  computes it, the quotient and the product each rounded to a double; it is 100 when none
  of the repositories is a fork, and for fewer than \<open>2 ^ 32\<close> repositories it is an integer
  nearest to the exact percentage (at an exact tie either neighbour). For the empty list
  the divisor is replaced by 1 and the score is 0.
\<close>

theorem solo_score:
  "(repos data \<noteq> [] \<longrightarrow>
      soloVsTeamScore (calculateInsights tz now data year)
        = Math_round (double (double (real (ownRepoCount (repos data))
                        / real (ownRepoCount (repos data) + forkedRepoCount (repos data)))
                      * 100)))
   \<and> (repos data \<noteq> [] \<and> forkedRepoCount (repos data) = 0 \<longrightarrow>
        soloVsTeamScore (calculateInsights tz now data year) = 100)
   \<and> (repos data \<noteq> [] \<and> length (repos data) < 4294967296 \<longrightarrow>
        2 * \<bar>int (length (repos data)) * soloVsTeamScore (calculateInsights tz now data year)
              - 100 * int (ownRepoCount (repos data))\<bar>
          \<le> int (length (repos data)))
   \<and> (repos data = [] \<longrightarrow> soloVsTeamScore (calculateInsights tz now data year) = 0)"
proof (intro conjI impI)
  assume ne: "repos data \<noteq> []"
  then have "ownRepoCount (repos data) + forkedRepoCount (repos data) \<ge> 1"
    by (cases "repos data") (simp_all add: own_plus_forked)
  then have "max 1 (ownRepoCount (repos data) + forkedRepoCount (repos data))
             = ownRepoCount (repos data) + forkedRepoCount (repos data)"
    by simp
  then show "soloVsTeamScore (calculateInsights tz now data year)
        = Math_round (double (double (real (ownRepoCount (repos data))
                        / real (ownRepoCount (repos data) + forkedRepoCount (repos data)))
                      * 100))"
    by (simp only: insights_soloScore)
next
  assume a: "repos data \<noteq> [] \<and> forkedRepoCount (repos data) = 0"
  then have "ownRepoCount (repos data) = length (repos data)"
    using own_plus_forked [of "repos data"] by simp
  moreover from a have "length (repos data) \<ge> 1"
    by (cases "repos data") simp_all
  ultimately show "soloVsTeamScore (calculateInsights tz now data year) = 100"
    using a by (simp add: insights_soloScore Math_round_def double_exact)
next
  assume a: "repos data \<noteq> [] \<and> length (repos data) < 4294967296"
  then have pos: "0 < length (repos data)"
    by simp
  have le: "ownRepoCount (repos data) \<le> length (repos data)"
    using own_plus_forked [of "repos data"] by simp
  from pos have "max 1 (ownRepoCount (repos data) + forkedRepoCount (repos data))
                 = length (repos data)"
    by (cases "repos data") (simp_all add: own_plus_forked)
  then have "soloVsTeamScore (calculateInsights tz now data year)
             = Math_round (double (double (real (ownRepoCount (repos data))
                                            / real (length (repos data))) * 100))"
    by (simp only: insights_soloScore)
  with rounded_percent_nearest [OF le pos] a
  show "2 * \<bar>int (length (repos data)) * soloVsTeamScore (calculateInsights tz now data year)
              - 100 * int (ownRepoCount (repos data))\<bar>
          \<le> int (length (repos data))"
    by simp
next
  assume "repos data = []"
  then show "soloVsTeamScore (calculateInsights tz now data year) = 0"
    by (simp add: insights_soloScore Math_round_def ownRepoCount_def forkedRepoCount_def
          double_exact)
qed

theorem solo_score_witness:
  "repos data_two_own \<noteq> [] \<and> length (repos data_two_own) < 4294967296
   \<and> soloVsTeamScore (calculateInsights (fixed_zone 0) 0 data_two_own 2024) = 67
   \<and> repos data_23_of_40 \<noteq> [] \<and> forkedRepoCount (repos data_23_of_40) = 17
   \<and> soloVsTeamScore (calculateInsights (fixed_zone 0) 0 data_23_of_40 2024) = 57
   \<and> repos data_ada \<noteq> [] \<and> forkedRepoCount (repos data_ada) = 0
   \<and> soloVsTeamScore (calculateInsights (fixed_zone 0) 0 data_ada 2024) = 100
   \<and> repos data_events = []
   \<and> soloVsTeamScore (calculateInsights (fixed_zone 0) 0 data_events 2024) = 0"
proof -
  have a: "repos data_two_own \<noteq> [] \<and> length (repos data_two_own) < 4294967296"
    and b: "repos data_events = []"
    and c: "repos data_ada \<noteq> [] \<and> forkedRepoCount (repos data_ada) = 0"
    and d: "repos data_23_of_40 \<noteq> [] \<and> forkedRepoCount (repos data_23_of_40) = 17"
    by (simp_all add: data_two_own_def data_events_def data_ada_def data_23_of_40_def
          forkedRepoCount_def lang_repo_def)
  have e: "Math_round (double (double (real (ownRepoCount (repos data_two_own))
                       / real (ownRepoCount (repos data_two_own)
                               + forkedRepoCount (repos data_two_own))) * 100)) = 67"
    by code_simp
  have f: "Math_round (double (double (real (ownRepoCount (repos data_23_of_40))
                       / real (ownRepoCount (repos data_23_of_40)
                               + forkedRepoCount (repos data_23_of_40))) * 100)) = 57"
    by code_simp
  from a b c d e f
    solo_score [of data_two_own "fixed_zone 0" 0 2024]
    solo_score [of data_23_of_40 "fixed_zone 0" 0 2024]
    solo_score [of data_ada "fixed_zone 0" 0 2024]
    solo_score [of data_events "fixed_zone 0" 0 2024]
  show ?thesis by simp
qed

subsection \<open>The two language counts\<close>


















subsection \<open>Streaks\<close>

lemma streak_step_bound:
  "st_currentStreak s \<le> max (st_longestStreak s) (tempStreak s) \<Longrightarrow>
   st_currentStreak (streak_step tz today s d)
     \<le> max (st_longestStreak (streak_step tz today s d)) (tempStreak (streak_step tz today s d))"
  by (auto simp: streak_step_def Let_def)

lemma streak_loop_bound:
  "st_currentStreak s \<le> max (st_longestStreak s) (tempStreak s) \<Longrightarrow>
   st_currentStreak (foldl (streak_step tz today) s ds)
     \<le> max (st_longestStreak (foldl (streak_step tz today) s ds))
           (tempStreak (foldl (streak_step tz today) s ds))"
proof (induction ds arbitrary: s)
  case Nil
  then show ?case by simp
next
  case (Cons d ds)
  from Cons.prems have "st_currentStreak (streak_step tz today s d)
     \<le> max (st_longestStreak (streak_step tz today s d)) (tempStreak (streak_step tz today s d))"
    by (rule streak_step_bound)
  then show ?case
    using Cons.IH [of "streak_step tz today s d"] by simp
qed

lemma calculateStreaks_bound:
  "sd_currentStreak (calculateStreaks tz now calendar)
     \<le> sd_longestStreak (calculateStreaks tz now calendar)"
proof (cases calendar)
  case None
  then show ?thesis by (simp add: calculateStreaks_def)
next
  case (Some cal)
  have "st_currentStreak \<lparr>st_longestStreak = 0, st_currentStreak = 0, tempStreak = 0,
                           st_totalActiveDays = 0\<rparr>
        \<le> max (st_longestStreak \<lparr>st_longestStreak = 0, st_currentStreak = 0, tempStreak = 0,
                                   st_totalActiveDays = 0\<rparr>)
               (tempStreak \<lparr>st_longestStreak = 0, st_currentStreak = 0, tempStreak = 0,
                            st_totalActiveDays = 0\<rparr>)"
    by simp
  from streak_loop_bound [OF this] Some show ?thesis
    by (simp add: calculateStreaks_def Let_def)
qed

text \<open>
  Without daylight saving time the difference in days is the difference of the two local
  day numbers.
\<close>

lemma diffDays_fixed_zone:
  "diffDays (fixed_zone m) (setHours0 (fixed_zone m) now) d
     = local_day (fixed_zone m) now - local_day (fixed_zone m) (parse_date (date d))"
proof -
  have "setHours0 (fixed_zone m) now - setHours0 (fixed_zone m) (parse_date (date d))
        = (local_day (fixed_zone m) now - local_day (fixed_zone m) (parse_date (date d)))
          * msPerDay"
    by (simp add: setHours0_def UTC_def fixed_zone_def algebra_simps)
  then show ?thesis
    by (simp add: diffDays_def msPerDay_def)
qed

lemma local_day_parse_date_le:
  assumes "m < 1440"
  shows "local_day (fixed_zone m) (parse_date (date d)) \<le> day_number d"
proof -
  have "(day_number d * 86400000 + m * 60000) div 86400000
        = day_number d + (m * 60000) div 86400000"
    by (simp add: div_plus_div_distrib_dvd_left)
  moreover have "(m * 60000) div 86400000 \<le> 0"
  proof -
    from assms have "m * 60000 \<le> 86399999"
      by simp
    then have "(m * 60000) div 86400000 \<le> 86399999 div (86400000 :: int)"
      by (rule zdiv_mono1) simp
    then show ?thesis by simp
  qed
  ultimately show ?thesis
    by (simp add: local_day_def LocalTime_def fixed_zone_def parse_date_def day_number_def
          msPerDay_def)
qed

lemma streak_loop_no_current:
  "(\<And>d. d \<in> set ds \<Longrightarrow> contributionCount d > 0 \<Longrightarrow> diffDays tz today d > 1) \<Longrightarrow>
   st_currentStreak (foldl (streak_step tz today) s ds) = st_currentStreak s"
proof (induction ds arbitrary: s)
  case Nil
  then show ?case by simp
next
  case (Cons d ds)
  have "st_currentStreak (streak_step tz today s d) = st_currentStreak s"
    using Cons.prems [of d] by (auto simp: streak_step_def Let_def)
  moreover have "st_currentStreak (foldl (streak_step tz today) (streak_step tz today s d) ds)
                 = st_currentStreak (streak_step tz today s d)"
    by (rule Cons.IH) (simp add: Cons.prems)
  ultimately show ?case by simp
qed

text \<open>
  In a time zone without daylight saving time, less than a day east of UTC, the current
  streak is 0 whenever the most recent day with a nonzero count lies more than one day
  before the local date of the evaluation.
\<close>

lemma calculateStreaks_no_current:
  assumes "m < 1440"
    and "active_day_numbers cal \<noteq> []"
    and "Max (set (active_day_numbers cal)) + 1 < local_day (fixed_zone m) now"
  shows "sd_currentStreak (calculateStreaks (fixed_zone m) now (Some cal)) = 0"
proof -
  have far: "diffDays (fixed_zone m) (setHours0 (fixed_zone m) now) d > 1"
    if "d \<in> set (allDays cal)" and "contributionCount d > 0" for d
  proof -
    from that have "day_number d \<in> set (active_day_numbers cal)"
      by (simp add: allDays_def active_day_numbers_def)
    then have "day_number d \<le> Max (set (active_day_numbers cal))"
      by simp
    with assms(3) local_day_parse_date_le [OF assms(1), of d] show ?thesis
      by (simp add: diffDays_fixed_zone)
  qed
  show ?thesis
    by (simp add: calculateStreaks_def Let_def streak_loop_no_current [OF far])
qed

text \<open>
  Of the state of the loop only \<open>currentStreak\<close> depends on \<open>today\<close>.
\<close>

lemma streak_loop_today:
  "st_longestStreak s = st_longestStreak s' \<Longrightarrow> tempStreak s = tempStreak s' \<Longrightarrow>
   st_totalActiveDays s = st_totalActiveDays s' \<Longrightarrow>
   st_longestStreak (foldl (streak_step tz t) s ds) = st_longestStreak (foldl (streak_step tz t') s' ds)
   \<and> tempStreak (foldl (streak_step tz t) s ds) = tempStreak (foldl (streak_step tz t') s' ds)
   \<and> st_totalActiveDays (foldl (streak_step tz t) s ds)
       = st_totalActiveDays (foldl (streak_step tz t') s' ds)"
proof (induction ds arbitrary: s s')
  case Nil
  then show ?case by simp
next
  case (Cons d ds)
  have "st_longestStreak (streak_step tz t s d) = st_longestStreak (streak_step tz t' s' d)"
    and "tempStreak (streak_step tz t s d) = tempStreak (streak_step tz t' s' d)"
    and "st_totalActiveDays (streak_step tz t s d) = st_totalActiveDays (streak_step tz t' s' d)"
    using Cons.prems by (simp_all add: streak_step_def Let_def)
  then show ?case
    using Cons.IH [of "streak_step tz t s d" "streak_step tz t' s' d"] by simp
qed

lemma calculateStreaks_now:
  "sd_longestStreak (calculateStreaks tz now calendar)
     = sd_longestStreak (calculateStreaks tz now' calendar)
   \<and> sd_totalActiveDays (calculateStreaks tz now calendar)
       = sd_totalActiveDays (calculateStreaks tz now' calendar)"
proof (cases calendar)
  case None
  then show ?thesis by (simp add: calculateStreaks_def)
next
  case (Some cal)
  show ?thesis
    using streak_loop_today [of "\<lparr>st_longestStreak = 0, st_currentStreak = 0, tempStreak = 0,
                                   st_totalActiveDays = 0\<rparr>"
                                "\<lparr>st_longestStreak = 0, st_currentStreak = 0, tempStreak = 0,
                                   st_totalActiveDays = 0\<rparr>"
                                tz "setHours0 tz now" "allDays cal" "setHours0 tz now'"] Some
    by (simp add: calculateStreaks_def Let_def)
qed

text \<open>
  Claim C6 holds in its first half: for every bundle, time zone and clock reading the
  longest streak is at least the current streak. Its second half holds in a time zone
  without daylight saving time, less than a day east of UTC: there the current streak is 0
  whenever the most recent day with a nonzero count lies more than one day before the
  local date of the evaluation. It fails across a change to daylight saving time, where
  the local midnights of the day before yesterday and of today are 47 hours apart and the
  difference in days rounds down to 1. In Berlin on 2024-04-01, with contributions on
  2024-03-29 and 2024-03-30 and none since, the most recent day with a nonzero count lies
  two days before the evaluation and the current streak is 2.
\<close>

theorem streaks_longest_and_current:
  "currentStreak (calculateInsights tz now data year)
     \<le> longestStreak (calculateInsights tz now data year)
   \<and> (contributionCalendar data = Some cal \<and> m < 1440 \<and> active_day_numbers cal \<noteq> []
        \<and> Max (set (active_day_numbers cal)) + 1 < local_day (fixed_zone m) now
      \<longrightarrow> currentStreak (calculateInsights (fixed_zone m) now data year) = 0)
   \<and> contributionCalendar data_march_streak
       = Some (calendar_of 2 [day_of 2024 3 29 1, day_of 2024 3 30 1, day_of 2024 3 31 0,
                              day_of 2024 4 1 0])
   \<and> active_day_numbers (calendar_of 2 [day_of 2024 3 29 1, day_of 2024 3 30 1,
                                          day_of 2024 3 31 0, day_of 2024 4 1 0])
       = [19811, 19812]
   \<and> local_day europe_berlin_2024 t_2024_04_01 = 19814
   \<and> currentStreak (calculateInsights europe_berlin_2024 t_2024_04_01 data_march_streak 2024) = 2"
proof -
  have "currentStreak (calculateInsights tz now data year)
     \<le> longestStreak (calculateInsights tz now data year)"
    using calculateStreaks_bound [of tz now "contributionCalendar data"]
    by (simp add: calculateInsights_def Let_def)
  moreover have "contributionCalendar data = Some cal \<and> m < 1440
        \<and> active_day_numbers cal \<noteq> []
        \<and> Max (set (active_day_numbers cal)) + 1 < local_day (fixed_zone m) now
      \<longrightarrow> currentStreak (calculateInsights (fixed_zone m) now data year) = 0"
    using calculateStreaks_no_current [of m cal now]
    by (auto simp: calculateInsights_def Let_def)
  moreover have "contributionCalendar data_march_streak
       = Some (calendar_of 2 [day_of 2024 3 29 1, day_of 2024 3 30 1, day_of 2024 3 31 0,
                              day_of 2024 4 1 0])"
    by (simp add: data_march_streak_def)
  moreover have "active_day_numbers (calendar_of 2 [day_of 2024 3 29 1, day_of 2024 3 30 1,
                                          day_of 2024 3 31 0, day_of 2024 4 1 0])
       = [19811, 19812]"
    by code_simp
  moreover have "local_day europe_berlin_2024 t_2024_04_01 = 19814"
    by code_simp
  moreover have
    "currentStreak (calculateInsights europe_berlin_2024 t_2024_04_01 data_march_streak 2024) = 2"
    by code_simp
  ultimately show ?thesis
    by (intro conjI)
qed

theorem streaks_longest_and_current_witness:
  "local_day (fixed_zone 60) t_2024_04_01 = 19814
   \<and> Max (set (active_day_numbers (calendar_of 2 [day_of 2024 3 29 1, day_of 2024 3 30 1,
                                      day_of 2024 3 31 0, day_of 2024 4 1 0]))) = 19812
   \<and> currentStreak (calculateInsights (fixed_zone 60) t_2024_04_01 data_march_streak 2024) = 0
   \<and> longestStreak (calculateInsights (fixed_zone 60) t_2024_04_01 data_march_streak 2024) = 2"
proof -
  note t = streaks_longest_and_current [of "fixed_zone 60" t_2024_04_01 data_march_streak 2024
      "calendar_of 2 [day_of 2024 3 29 1, day_of 2024 3 30 1, day_of 2024 3 31 0,
                      day_of 2024 4 1 0]" 60]
  have a: "contributionCalendar data_march_streak
     = Some (calendar_of 2 [day_of 2024 3 29 1, day_of 2024 3 30 1, day_of 2024 3 31 0,
                            day_of 2024 4 1 0])"
    by (simp add: data_march_streak_def)
  have b: "active_day_numbers (calendar_of 2 [day_of 2024 3 29 1, day_of 2024 3 30 1,
                                      day_of 2024 3 31 0, day_of 2024 4 1 0]) = [19811, 19812]"
    by code_simp
  have c: "local_day (fixed_zone 60) t_2024_04_01 = 19814"
    by code_simp
  have d: "longestStreak (calculateInsights (fixed_zone 60) t_2024_04_01 data_march_streak 2024)
           = 2"
    by code_simp
  from b have e: "Max (set (active_day_numbers (calendar_of 2 [day_of 2024 3 29 1,
                     day_of 2024 3 30 1, day_of 2024 3 31 0, day_of 2024 4 1 0]))) = 19812"
    by simp
  from a b c e have h: "contributionCalendar data_march_streak
          = Some (calendar_of 2 [day_of 2024 3 29 1, day_of 2024 3 30 1, day_of 2024 3 31 0,
                                 day_of 2024 4 1 0])
        \<and> (60 :: int) < 1440
        \<and> active_day_numbers (calendar_of 2 [day_of 2024 3 29 1, day_of 2024 3 30 1,
                                  day_of 2024 3 31 0, day_of 2024 4 1 0]) \<noteq> []
        \<and> Max (set (active_day_numbers (calendar_of 2 [day_of 2024 3 29 1,
                     day_of 2024 3 30 1, day_of 2024 3 31 0, day_of 2024 4 1 0]))) + 1
            < local_day (fixed_zone 60) t_2024_04_01"
    by simp
  have "currentStreak (calculateInsights (fixed_zone 60) t_2024_04_01 data_march_streak 2024)
        = 0"
    using t [THEN conjunct2, THEN conjunct1, THEN mp, OF h] .
  with c d e show ?thesis
    by (intro conjI)
qed

subsection \<open>What the result depends on\<close>

text \<open>
  Claim C5, as stated, fails: \<open>calculateStreaks\<close> reads the clock. The same bundle and
  year give a current streak of 2 on 2024-06-10 and of 0 ten days later.
\<close>

theorem insights_depend_on_clock_counterexample:
  "currentStreak (calculateInsights (fixed_zone 0) t_2024_06_10 data_fresh_streak 2024) = 2
   \<and> currentStreak (calculateInsights (fixed_zone 0) (t_2024_06_10 + 10 * msPerDay) data_fresh_streak 2024) = 0
   \<and> calculateInsights (fixed_zone 0) t_2024_06_10 data_fresh_streak 2024
       \<noteq> calculateInsights (fixed_zone 0) (t_2024_06_10 + 10 * msPerDay) data_fresh_streak 2024"
proof -
  have a: "currentStreak (calculateInsights (fixed_zone 0) t_2024_06_10 data_fresh_streak 2024) = 2"
    by code_simp
  have b: "currentStreak (calculateInsights (fixed_zone 0) (t_2024_06_10 + 10 * msPerDay)
                            data_fresh_streak 2024) = 0"
    by code_simp
  from a b have "calculateInsights (fixed_zone 0) t_2024_06_10 data_fresh_streak 2024
       \<noteq> calculateInsights (fixed_zone 0) (t_2024_06_10 + 10 * msPerDay) data_fresh_streak 2024"
    by auto
  with a b show ?thesis by simp
qed

text \<open>
  Claim C5, amended. \<open>calculateInsights\<close> is a function of the bundle, the year, the local
  time zone and the clock reading. Two runs on the same bundle and year in the same time
  zone agree on every field but \<open>currentStreak\<close>, and on that one too when the clock shows
  the same local date.
\<close>

theorem insights_deterministic_up_to_clock:
  "calculateInsights tz now data year
     = (calculateInsights tz now' data year)
         \<lparr>currentStreak := currentStreak (calculateInsights tz now data year)\<rparr>
   \<and> (local_day tz now = local_day tz now' \<longrightarrow>
        calculateInsights tz now data year = calculateInsights tz now' data year)"
proof
  show "calculateInsights tz now data year
     = (calculateInsights tz now' data year)
         \<lparr>currentStreak := currentStreak (calculateInsights tz now data year)\<rparr>"
    using calculateStreaks_now [of tz now "contributionCalendar data" now']
    by (simp add: calculateInsights_def Let_def)
next
  show "local_day tz now = local_day tz now' \<longrightarrow>
        calculateInsights tz now data year = calculateInsights tz now' data year"
  proof
    assume "local_day tz now = local_day tz now'"
    then have "setHours0 tz now = setHours0 tz now'"
      by (simp add: setHours0_def)
    then have "calculateStreaks tz now (contributionCalendar data)
               = calculateStreaks tz now' (contributionCalendar data)"
      by (simp add: calculateStreaks_def Let_def split: option.split)
    then show "calculateInsights tz now data year = calculateInsights tz now' data year"
      by (simp add: calculateInsights_def Let_def)
  qed
qed

theorem insights_deterministic_up_to_clock_witness:
  "local_day (fixed_zone 0) t_2024_06_10 = local_day (fixed_zone 0) (t_2024_06_10 + 3600000)
   \<and> calculateInsights (fixed_zone 0) t_2024_06_10 data_fresh_streak 2024
       = calculateInsights (fixed_zone 0) (t_2024_06_10 + 3600000) data_fresh_streak 2024"
proof -
  have "local_day (fixed_zone 0) t_2024_06_10 = local_day (fixed_zone 0) (t_2024_06_10 + 3600000)"
    by code_simp
  with insights_deterministic_up_to_clock [of "fixed_zone 0" t_2024_06_10 data_fresh_streak 2024
         "t_2024_06_10 + 3600000"]
  show ?thesis by simp
qed

subsection \<open>Language statistics\<close>














subsection \<open>The paginated fetchers\<close>

lemma repos_loop_done:
  "\<not> length rs < maxRepos \<Longrightarrow> fetchUserRepos_loop server maxRepos rs page asked = (Inr rs, asked)"
  by (subst fetchUserRepos_loop.simps) simp

lemma repos_loop_fail:
  "length rs < maxRepos \<Longrightarrow> fetchGitHub (server page) = Inl e \<Longrightarrow>
   fetchUserRepos_loop server maxRepos rs page asked = (Inl e, asked @ [page])"
  by (subst fetchUserRepos_loop.simps) simp

lemma repos_loop_empty:
  "length rs < maxRepos \<Longrightarrow> fetchGitHub (server page) = Inr [] \<Longrightarrow>
   fetchUserRepos_loop server maxRepos rs page asked = (Inr rs, asked @ [page])"
  by (subst fetchUserRepos_loop.simps) simp

lemma repos_loop_short:
  "length rs < maxRepos \<Longrightarrow> fetchGitHub (server page) = Inr b \<Longrightarrow> b \<noteq> [] \<Longrightarrow>
   length b < perPage \<Longrightarrow>
   fetchUserRepos_loop server maxRepos rs page asked = (Inr (rs @ b), asked @ [page])"
  by (subst fetchUserRepos_loop.simps) simp

lemma repos_loop_more:
  "length rs < maxRepos \<Longrightarrow> fetchGitHub (server page) = Inr b \<Longrightarrow> b \<noteq> [] \<Longrightarrow>
   \<not> length b < perPage \<Longrightarrow>
   fetchUserRepos_loop server maxRepos rs page asked
     = fetchUserRepos_loop server maxRepos (rs @ b) (Suc page) (asked @ [page])"
  by (subst fetchUserRepos_loop.simps) simp

lemma events_loop_done:
  "\<not> (length es < maxEvents \<and> page \<le> 3) \<Longrightarrow>
   fetchUserEvents_loop server maxEvents es page asked = (es, asked)"
  by (subst fetchUserEvents_loop.simps) auto

lemma events_loop_fail:
  "length es < maxEvents \<Longrightarrow> page \<le> 3 \<Longrightarrow> fetchGitHub (server page) = Inl e \<Longrightarrow>
   fetchUserEvents_loop server maxEvents es page asked = (es, asked @ [page])"
  by (subst fetchUserEvents_loop.simps) simp

lemma events_loop_empty:
  "length es < maxEvents \<Longrightarrow> page \<le> 3 \<Longrightarrow> fetchGitHub (server page) = Inr [] \<Longrightarrow>
   fetchUserEvents_loop server maxEvents es page asked = (es, asked @ [page])"
  by (subst fetchUserEvents_loop.simps) simp

lemma events_loop_more:
  "length es < maxEvents \<Longrightarrow> page \<le> 3 \<Longrightarrow> fetchGitHub (server page) = Inr b \<Longrightarrow> b \<noteq> [] \<Longrightarrow>
   fetchUserEvents_loop server maxEvents es page asked
     = fetchUserEvents_loop server maxEvents (es @ b) (Suc page) (asked @ [page])"
  by (subst fetchUserEvents_loop.simps) simp

lemma fetchUserRepos_at_most:
  "fst (fetchUserRepos server maxRepos) = Inr rs \<Longrightarrow> length rs \<le> maxRepos"
  by (auto simp: fetchUserRepos_def split: prod.splits sum.splits)

lemma fetchUserRepos_one_request:
  assumes "0 < maxRepos" and "maxRepos \<le> perPage"
  shows "snd (fetchUserRepos server maxRepos) = [1]"
proof -
  have "snd (fetchUserRepos_loop server maxRepos [] 1 []) = [1]"
  proof (cases "fetchGitHub (server 1)")
    case (Inl e)
    with assms show ?thesis
      by (simp add: repos_loop_fail)
  next
    case (Inr b)
    show ?thesis
    proof (cases "b = []")
      case True
      with Inr assms show ?thesis by (simp add: repos_loop_empty)
    next
      case False
      show ?thesis
      proof (cases "length b < perPage")
        case True
        with Inr assms \<open>b \<noteq> []\<close> show ?thesis
          by (simp add: repos_loop_short)
      next
        case False
        with Inr assms \<open>b \<noteq> []\<close> show ?thesis
          by (simp add: repos_loop_more repos_loop_done)
      qed
    qed
  qed
  then show ?thesis
    by (auto simp: fetchUserRepos_def split: prod.splits sum.splits)
qed

lemma fetchUserRepos_loop_asked:
  "fst (fetchUserRepos_loop server maxRepos rs page asked) = Inr out \<Longrightarrow>
   p \<in> set (snd (fetchUserRepos_loop server maxRepos rs page asked)) \<Longrightarrow>
   p \<in> set asked \<or> (\<exists>b. fetchGitHub (server p) = Inr b)"
proof (induction server maxRepos rs page asked rule: fetchUserRepos_loop.induct)
  case (1 server maxRepos rs page asked)
  show ?case
  proof (cases "length rs < maxRepos")
    case False
    with "1.prems" show ?thesis
      by (simp add: repos_loop_done)
  next
    case True
    show ?thesis
    proof (cases "fetchGitHub (server page)")
      case (Inl e)
      with True "1.prems" show ?thesis
        by (simp add: repos_loop_fail)
    next
      case (Inr b)
      show ?thesis
      proof (cases "b = []")
        case True
        with \<open>length rs < maxRepos\<close> Inr "1.prems" show ?thesis
          by (auto simp: repos_loop_empty)
      next
        case False
        show ?thesis
        proof (cases "length b < perPage")
          case True
          with \<open>length rs < maxRepos\<close> Inr \<open>b \<noteq> []\<close> "1.prems" show ?thesis
            by (auto simp: repos_loop_short)
        next
          case False
          with \<open>length rs < maxRepos\<close> Inr \<open>b \<noteq> []\<close> "1.prems"
          have "fst (fetchUserRepos_loop server maxRepos (rs @ b) (page + 1)
                       (asked @ [page])) = Inr out"
            and "p \<in> set (snd (fetchUserRepos_loop server maxRepos (rs @ b) (page + 1)
                                 (asked @ [page])))"
            by (simp_all add: repos_loop_more)
          with "1.IH" [OF \<open>length rs < maxRepos\<close> Inr] False \<open>b \<noteq> []\<close>
          have "p \<in> set (asked @ [page]) \<or> (\<exists>b. fetchGitHub (server p) = Inr b)"
            by simp
          with Inr show ?thesis by auto
        qed
      qed
    qed
  qed
qed

lemma fetchUserRepos_propagates:
  assumes "fst (fetchUserRepos server maxRepos) = Inr out"
    and "p \<in> set (snd (fetchUserRepos server maxRepos))"
  shows "\<exists>b. fetchGitHub (server p) = Inr b"
proof -
  obtain r asked where l: "fetchUserRepos_loop server maxRepos [] 1 [] = (r, asked)"
    by (cases "fetchUserRepos_loop server maxRepos [] 1 []")
  with assms obtain rs where "r = Inr rs" and "p \<in> set asked"
    by (cases r) (simp_all add: fetchUserRepos_def)
  with l fetchUserRepos_loop_asked [of server maxRepos "[]" 1 "[]" rs p] show ?thesis
    by simp
qed

lemma fetchUserRepos_first_page_fails:
  assumes "0 < maxRepos" and "fetchGitHub (server 1) = Inl e"
  shows "fetchUserRepos server maxRepos = (Inl e, [1])"
  using assms by (simp add: fetchUserRepos_def repos_loop_fail)

lemma fetchUserEvents_first_page_fails:
  assumes "0 < maxEvents" and "fetchGitHub (server 1) = Inl e"
  shows "fetchUserEvents server maxEvents = (Inr [], [1])"
  using assms by (simp add: fetchUserEvents_def events_loop_fail)

text \<open>The events collected are the items of the pages asked for, a failed page giving none.\<close>

lemma fetchUserEvents_loop_collects:
  "\<exists>new. snd (fetchUserEvents_loop server maxEvents es page asked) = asked @ new
         \<and> fst (fetchUserEvents_loop server maxEvents es page asked)
             = es @ concat (map (page_items server) new)"
proof (induction server maxEvents es page asked rule: fetchUserEvents_loop.induct)
  case (1 server maxEvents es page asked)
  show ?case
  proof (cases "length es < maxEvents \<and> page \<le> 3")
    case False
    then show ?thesis
      by (simp add: events_loop_done)
  next
    case True
    show ?thesis
    proof (cases "fetchGitHub (server page)")
      case (Inl e)
      with True show ?thesis
        by (simp add: events_loop_fail page_items_def)
    next
      case (Inr b)
      show ?thesis
      proof (cases "b = []")
        case True
        with \<open>length es < maxEvents \<and> page \<le> 3\<close> Inr show ?thesis
          by (simp add: events_loop_empty page_items_def)
      next
        case False
        with "1.IH" [OF True Inr] obtain new where
          n: "snd (fetchUserEvents_loop server maxEvents (es @ b) (page + 1) (asked @ [page]))
                = (asked @ [page]) @ new"
             "fst (fetchUserEvents_loop server maxEvents (es @ b) (page + 1) (asked @ [page]))
                = (es @ b) @ concat (map (page_items server) new)"
          by auto
        have "fetchUserEvents_loop server maxEvents es page asked
              = fetchUserEvents_loop server maxEvents (es @ b) (page + 1) (asked @ [page])"
          using True Inr False by (simp add: events_loop_more)
        with n Inr have
          "snd (fetchUserEvents_loop server maxEvents es page asked) = asked @ (page # new)
           \<and> fst (fetchUserEvents_loop server maxEvents es page asked)
               = es @ concat (map (page_items server) (page # new))"
          by (simp add: page_items_def)
        then show ?thesis by blast
      qed
    qed
  qed
qed

lemma fetchUserEvents_collects:
  "fetchUserEvents server maxEvents
     = (Inr (concat (map (page_items server) (snd (fetchUserEvents server maxEvents)))),
        snd (fetchUserEvents server maxEvents))"
proof -
  obtain es asked where l: "fetchUserEvents_loop server maxEvents [] 1 [] = (es, asked)"
    by (cases "fetchUserEvents_loop server maxEvents [] 1 []")
  with fetchUserEvents_loop_collects [of server maxEvents "[]" 1 "[]"]
  show ?thesis
    by (simp add: fetchUserEvents_def)
qed

lemma fetchGitHub_404: "fetchGitHub (Response 404 body) = Inl NotFound"
  by simp

text \<open>
  The pages asked for are 1, 2, and so on up to a last one; every page before the last
  succeeded, and a failure of the last one is what the repositories fetch rejects with.
\<close>

lemma fetchUserRepos_loop_pages:
  "\<exists>k. page \<le> k
       \<and> snd (fetchUserRepos_loop server maxRepos rs page asked) = asked @ [page..<k]
       \<and> (\<forall>p. page \<le> p \<and> Suc p < k \<longrightarrow> (\<exists>b. fetchGitHub (server p) = Inr b))
       \<and> (\<forall>e. page < k \<and> fetchGitHub (server (k - 1)) = Inl e \<longrightarrow>
              fst (fetchUserRepos_loop server maxRepos rs page asked) = Inl e)"
proof (induction server maxRepos rs page asked rule: fetchUserRepos_loop.induct)
  case (1 server maxRepos rs page asked)
  let ?L = "fetchUserRepos_loop server maxRepos rs page asked"
  have one: "?case" if "snd ?L = asked @ [page]"
    and "\<And>e. fetchGitHub (server page) = Inl e \<Longrightarrow> fst ?L = Inl e"
  proof -
    have "page \<le> Suc page
       \<and> snd ?L = asked @ [page..<Suc page]
       \<and> (\<forall>p. page \<le> p \<and> Suc p < Suc page \<longrightarrow> (\<exists>b. fetchGitHub (server p) = Inr b))
       \<and> (\<forall>e. page < Suc page \<and> fetchGitHub (server (Suc page - 1)) = Inl e \<longrightarrow>
              fst ?L = Inl e)"
      using that by auto
    then show ?thesis by (rule exI [where x = "Suc page"])
  qed
  show ?case
  proof (cases "length rs < maxRepos")
    case False
    then have "page \<le> page
       \<and> snd ?L = asked @ [page..<page]
       \<and> (\<forall>p. page \<le> p \<and> Suc p < page \<longrightarrow> (\<exists>b. fetchGitHub (server p) = Inr b))
       \<and> (\<forall>e. page < page \<and> fetchGitHub (server (page - 1)) = Inl e \<longrightarrow> fst ?L = Inl e)"
      by (auto simp: repos_loop_done)
    then show ?thesis by (rule exI [where x = "page"])
  next
    case True
    show ?thesis
    proof (cases "fetchGitHub (server page)")
      case (Inl e)
      with True show ?thesis
        by (intro one) (simp_all add: repos_loop_fail)
    next
      case (Inr b)
      show ?thesis
      proof (cases "b = []")
        case True
        with \<open>length rs < maxRepos\<close> Inr show ?thesis
          by (intro one) (simp_all add: repos_loop_empty)
      next
        case False
        show ?thesis
        proof (cases "length b < perPage")
          case True
          with \<open>length rs < maxRepos\<close> Inr \<open>b \<noteq> []\<close> show ?thesis
            by (intro one) (simp_all add: repos_loop_short)
        next
          case False
          let ?M = "fetchUserRepos_loop server maxRepos (rs @ b) (page + 1) (asked @ [page])"
          have eq: "?L = ?M"
            using \<open>length rs < maxRepos\<close> Inr \<open>b \<noteq> []\<close> False by (simp add: repos_loop_more)
          from "1.IH" [OF \<open>length rs < maxRepos\<close> Inr] \<open>b \<noteq> []\<close> False
          obtain k where k: "page + 1 \<le> k"
            "snd ?M = (asked @ [page]) @ [page + 1..<k]"
            "\<forall>p. page + 1 \<le> p \<and> Suc p < k \<longrightarrow> (\<exists>b. fetchGitHub (server p) = Inr b)"
            "\<forall>e. page + 1 < k \<and> fetchGitHub (server (k - 1)) = Inl e \<longrightarrow> fst ?M = Inl e"
            by auto
          from k(1) have u: "[page..<k] = page # [page + 1..<k]"
            by (simp add: upt_conv_Cons)
          have a: "snd ?L = asked @ [page..<k]"
            using k(2) by (simp add: eq u)
          have b: "\<exists>b. fetchGitHub (server p) = Inr b" if "page \<le> p \<and> Suc p < k" for p
          proof (cases "p = page")
            case True
            with Inr show ?thesis by simp
          next
            case False
            with that k(3) show ?thesis by simp
          qed
          have c: "fst ?L = Inl e" if "page < k \<and> fetchGitHub (server (k - 1)) = Inl e" for e
          proof (cases "k = page + 1")
            case True
            with that Inr show ?thesis by simp
          next
            case False
            with k(1) that k(4) show ?thesis by (simp add: eq)
          qed
          from k(1) a b c have "page \<le> k
             \<and> snd ?L = asked @ [page..<k]
             \<and> (\<forall>p. page \<le> p \<and> Suc p < k \<longrightarrow> (\<exists>b. fetchGitHub (server p) = Inr b))
             \<and> (\<forall>e. page < k \<and> fetchGitHub (server (k - 1)) = Inl e \<longrightarrow> fst ?L = Inl e)"
            by simp
          then show ?thesis by (rule exI [where x = "k"])
        qed
      qed
    qed
  qed
qed

lemma fetchUserRepos_failed_page:
  assumes "p \<in> set (snd (fetchUserRepos server maxRepos))"
    and "fetchGitHub (server p) = Inl e"
  shows "fetchUserRepos server maxRepos = (Inl e, [1..<Suc p])"
proof -
  let ?L = "fetchUserRepos_loop server maxRepos [] 1 []"
  have s: "snd (fetchUserRepos server maxRepos) = snd ?L"
    by (auto simp: fetchUserRepos_def split: prod.splits sum.splits)
  from fetchUserRepos_loop_pages [of 1 server maxRepos "[]" "[]"]
  obtain k where k: "1 \<le> k" "snd ?L = [1..<k]"
    "\<forall>p. 1 \<le> p \<and> Suc p < k \<longrightarrow> (\<exists>b. fetchGitHub (server p) = Inr b)"
    "\<forall>e. 1 < k \<and> fetchGitHub (server (k - 1)) = Inl e \<longrightarrow> fst ?L = Inl e"
    by auto
  from assms(1) s k(2) have p: "1 \<le> p" "p < k"
    by simp_all
  have "\<not> Suc p < k"
    using k(3) p(1) assms(2) by force
  with p have kp: "k = Suc p"
    by simp
  with k(4) p(1) assms(2) have "fst ?L = Inl e"
    by simp
  with k(2) kp have "?L = (Inl e, [1..<Suc p])"
    by (metis prod.collapse)
  then show ?thesis
    by (simp add: fetchUserRepos_def)
qed

lemma fetchUserRepos_pages: "\<exists>k. snd (fetchUserRepos server maxRepos) = [1..<k]"
proof -
  have "snd (fetchUserRepos server maxRepos) = snd (fetchUserRepos_loop server maxRepos [] 1 [])"
    by (auto simp: fetchUserRepos_def split: prod.splits sum.splits)
  with fetchUserRepos_loop_pages [of 1 server maxRepos "[]" "[]"] show ?thesis
    by auto
qed

lemma fetchUserEvents_loop_pages:
  "\<exists>k. page \<le> k
       \<and> fetchUserEvents_loop server maxEvents es page asked
           = (es @ concat (map (page_items server) [page..<k]), asked @ [page..<k])
       \<and> (\<forall>p. page \<le> p \<and> Suc p < k \<longrightarrow> (\<exists>b. fetchGitHub (server p) = Inr b))"
proof (induction server maxEvents es page asked rule: fetchUserEvents_loop.induct)
  case (1 server maxEvents es page asked)
  let ?L = "fetchUserEvents_loop server maxEvents es page asked"
  have one: "?case" if "?L = (es, asked @ [page])" and "page_items server page = []"
  proof -
    have "page \<le> Suc page
       \<and> ?L = (es @ concat (map (page_items server) [page..<Suc page]), asked @ [page..<Suc page])
       \<and> (\<forall>p. page \<le> p \<and> Suc p < Suc page \<longrightarrow> (\<exists>b. fetchGitHub (server p) = Inr b))"
      using that by auto
    then show ?thesis by (rule exI [where x = "Suc page"])
  qed
  show ?case
  proof (cases "length es < maxEvents \<and> page \<le> 3")
    case False
    then have "page \<le> page
       \<and> ?L = (es @ concat (map (page_items server) [page..<page]), asked @ [page..<page])
       \<and> (\<forall>p. page \<le> p \<and> Suc p < page \<longrightarrow> (\<exists>b. fetchGitHub (server p) = Inr b))"
      by (auto simp: events_loop_done)
    then show ?thesis by (rule exI [where x = "page"])
  next
    case True
    show ?thesis
    proof (cases "fetchGitHub (server page)")
      case (Inl e)
      with True show ?thesis
        by (intro one) (simp_all add: events_loop_fail page_items_def)
    next
      case (Inr b)
      show ?thesis
      proof (cases "b = []")
        case True
        with \<open>length es < maxEvents \<and> page \<le> 3\<close> Inr show ?thesis
          by (intro one) (simp_all add: events_loop_empty page_items_def)
      next
        case False
        let ?M = "fetchUserEvents_loop server maxEvents (es @ b) (page + 1) (asked @ [page])"
        have eq: "?L = ?M"
          using True Inr False by (simp add: events_loop_more)
        from "1.IH" [OF True Inr] False
        obtain k where k: "page + 1 \<le> k"
          "?M = ((es @ b) @ concat (map (page_items server) [page + 1..<k]),
                 (asked @ [page]) @ [page + 1..<k])"
          "\<forall>p. page + 1 \<le> p \<and> Suc p < k \<longrightarrow> (\<exists>b. fetchGitHub (server p) = Inr b)"
          by auto
        from k(1) have u: "[page..<k] = page # [page + 1..<k]"
          by (simp add: upt_conv_Cons)
        have a: "?L = (es @ concat (map (page_items server) [page..<k]), asked @ [page..<k])"
          using Inr k(2) by (simp add: eq u page_items_def)
        have b: "\<exists>b. fetchGitHub (server p) = Inr b" if "page \<le> p \<and> Suc p < k" for p
        proof (cases "p = page")
          case True
          with Inr show ?thesis by simp
        next
          case False
          with that k(3) show ?thesis by simp
        qed
        from k(1) a b have "page \<le> k
           \<and> ?L = (es @ concat (map (page_items server) [page..<k]), asked @ [page..<k])
           \<and> (\<forall>p. page \<le> p \<and> Suc p < k \<longrightarrow> (\<exists>b. fetchGitHub (server p) = Inr b))"
          by simp
        then show ?thesis by (rule exI [where x = "k"])
      qed
    qed
  qed
qed

lemma fetchUserEvents_failed_page:
  assumes "p \<in> set (snd (fetchUserEvents server maxEvents))"
    and "fetchGitHub (server p) = Inl e"
  shows "fetchUserEvents server maxEvents
           = (Inr (concat (map (page_items server) [1..<p])), [1..<Suc p])"
proof -
  let ?L = "fetchUserEvents_loop server maxEvents [] 1 []"
  from fetchUserEvents_loop_pages [of 1 server maxEvents "[]" "[]"]
  obtain k where k: "1 \<le> k"
    "?L = (concat (map (page_items server) [1..<k]), [1..<k])"
    "\<forall>p. 1 \<le> p \<and> Suc p < k \<longrightarrow> (\<exists>b. fetchGitHub (server p) = Inr b)"
    by auto
  from k(2) have s: "fetchUserEvents server maxEvents
                     = (Inr (concat (map (page_items server) [1..<k])), [1..<k])"
    by (simp add: fetchUserEvents_def)
  with assms(1) have p: "1 \<le> p" "p < k"
    by simp_all
  have "\<not> Suc p < k"
    using k(3) p(1) assms(2) by force
  with p have kp: "k = Suc p"
    by simp
  have "page_items server p = []"
    using assms(2) by (simp add: page_items_def)
  with p(1) have "concat (map (page_items server) [1..<Suc p])
                  = concat (map (page_items server) [1..<p])"
    by simp
  with s kp show ?thesis
    by simp
qed

lemma fetchUserEvents_pages:
  "\<exists>k. fetchUserEvents server maxEvents
         = (Inr (concat (map (page_items server) [1..<k])), [1..<k])"
  using fetchUserEvents_loop_pages [of 1 server maxEvents "[]" "[]"]
  by (auto simp: fetchUserEvents_def)

text \<open>
  Claim C2 holds of \<open>fetchUserRepos\<close> and fails for \<open>fetchUserEvents\<close>, which neither
  truncates its result nor stops at a page shorter than the page size. Asked for at most
  50 events, it returns the 100 events of a full first page; and after a first page of 30
  events it asks for a second page.
\<close>

theorem events_fetch_ignores_max:
  "fetchUserEvents server_full 50 = (Inr (replicate 100 1), [1])
   \<and> fetchUserEvents server_short 50 = (Inr (replicate 30 1), [1, 2])
   \<and> fetchUserRepos server_full 50 = (Inr (replicate 50 1), [1])
   \<and> fetchUserRepos server_short 50 = (Inr (replicate 30 1), [1])"
  by code_simp

text \<open>
  Claim C3, as stated, fails for the events: a 404 on their first page is caught like any
  other failure, and the fetch returns the empty list.
\<close>

theorem first_page_not_found_counterexample:
  "fetchGitHub (server_404 1) = Inl NotFound
   \<and> fetchUserEvents server_404 300 = (Inr [], [1])
   \<and> fst (fetchUserEvents server_404 300) \<noteq> Inl NotFound"
  by code_simp

text \<open>
  Claim C3, amended. Both fetchers ask for the pages 1, 2, 3 and so on in order, and a page
  that fails is the last one they ask for. \<open>fetchUserRepos\<close> then rejects with the error
  of that page: a 404 on the first page surfaces \<open>NotFound\<close>, and it returns a list only if
  every page it asked for succeeded. \<open>fetchUserEvents\<close> never fails: a failure on any page,
  the first included, ends the pagination, and the result is what the pages before the
  failed one held (the empty list when the first page fails).
\<close>

theorem pagination_failures:
  "(0 < maxRepos \<and> server 1 = Response 404 body \<longrightarrow>
      fetchUserRepos server maxRepos = (Inl NotFound, [1]))
   \<and> (0 < maxRepos \<and> fetchGitHub (server 1) = Inl e \<longrightarrow>
        fetchUserRepos server maxRepos = (Inl e, [1]))
   \<and> (fst (fetchUserRepos server maxRepos) = Inr out
        \<and> p \<in> set (snd (fetchUserRepos server maxRepos)) \<longrightarrow>
        (\<exists>b. fetchGitHub (server p) = Inr b))
   \<and> (0 < maxEvents \<and> fetchGitHub (server 1) = Inl e \<longrightarrow>
        fetchUserEvents server maxEvents = (Inr [], [1]))
   \<and> fst (fetchUserEvents server maxEvents)
       = Inr (concat (map (page_items server) (snd (fetchUserEvents server maxEvents))))
   \<and> (\<exists>k. snd (fetchUserRepos server maxRepos) = [1..<k])
   \<and> (\<exists>k. snd (fetchUserEvents server maxEvents) = [1..<k])
   \<and> (p \<in> set (snd (fetchUserRepos server maxRepos)) \<and> fetchGitHub (server p) = Inl e \<longrightarrow>
        fetchUserRepos server maxRepos = (Inl e, [1..<Suc p]))
   \<and> (p \<in> set (snd (fetchUserEvents server maxEvents)) \<and> fetchGitHub (server p) = Inl e \<longrightarrow>
        fetchUserEvents server maxEvents
          = (Inr (concat (map (page_items server) [1..<p])), [1..<Suc p]))"
proof (intro conjI impI)
  assume "0 < maxRepos \<and> server 1 = Response 404 body"
  then show "fetchUserRepos server maxRepos = (Inl NotFound, [1])"
    using fetchUserRepos_first_page_fails [of maxRepos server NotFound] by simp
next
  assume "0 < maxRepos \<and> fetchGitHub (server 1) = Inl e"
  then show "fetchUserRepos server maxRepos = (Inl e, [1])"
    by (simp add: fetchUserRepos_first_page_fails)
next
  assume "fst (fetchUserRepos server maxRepos) = Inr out
          \<and> p \<in> set (snd (fetchUserRepos server maxRepos))"
  then show "\<exists>b. fetchGitHub (server p) = Inr b"
    using fetchUserRepos_propagates by blast
next
  assume "0 < maxEvents \<and> fetchGitHub (server 1) = Inl e"
  then show "fetchUserEvents server maxEvents = (Inr [], [1])"
    by (simp add: fetchUserEvents_first_page_fails)
next
  show "fst (fetchUserEvents server maxEvents)
       = Inr (concat (map (page_items server) (snd (fetchUserEvents server maxEvents))))"
    using fetchUserEvents_collects [of server maxEvents] by (metis fst_conv)
next
  show "\<exists>k. snd (fetchUserRepos server maxRepos) = [1..<k]"
    by (rule fetchUserRepos_pages)
next
  from fetchUserEvents_pages [of server maxEvents]
  obtain k where "fetchUserEvents server maxEvents
                  = (Inr (concat (map (page_items server) [1..<k])), [1..<k])"
    by blast
  then have "snd (fetchUserEvents server maxEvents) = [1..<k]"
    by simp
  then show "\<exists>k. snd (fetchUserEvents server maxEvents) = [1..<k]"
    by (rule exI)
next
  assume "p \<in> set (snd (fetchUserRepos server maxRepos)) \<and> fetchGitHub (server p) = Inl e"
  then have "p \<in> set (snd (fetchUserRepos server maxRepos))"
    and "fetchGitHub (server p) = Inl e"
    by simp_all
  then show "fetchUserRepos server maxRepos = (Inl e, [1..<Suc p])"
    by (rule fetchUserRepos_failed_page)
next
  assume "p \<in> set (snd (fetchUserEvents server maxEvents)) \<and> fetchGitHub (server p) = Inl e"
  then have "p \<in> set (snd (fetchUserEvents server maxEvents))"
    and "fetchGitHub (server p) = Inl e"
    by simp_all
  then show "fetchUserEvents server maxEvents
          = (Inr (concat (map (page_items server) [1..<p])), [1..<Suc p])"
    by (rule fetchUserEvents_failed_page)
qed

theorem pagination_failures_witness:
  "server_404 1 = Response 404 []
   \<and> fetchUserRepos server_404 100 = (Inl NotFound, [1])
   \<and> fetchUserEvents server_404 300 = (Inr [], [1])
   \<and> fst (fetchUserRepos server_short 100) = Inr (replicate 30 1)
   \<and> (\<exists>b. fetchGitHub (server_short 1) = Inr b)
   \<and> fetchGitHub (server_fails_second 2) = Inl (GitHubApiError 500 None)
   \<and> fetchUserRepos server_fails_second 300 = (Inl (GitHubApiError 500 None), [1, 2])
   \<and> fetchUserEvents server_fails_second 300 = (Inr (replicate 100 1), [1, 2])"
proof -
  note not_found = pagination_failures [of 100 server_404 "[]" NotFound "[]" 1 300]
  note short = pagination_failures [of 100 server_short "[]" NotFound "replicate 30 1" 1 300]
  note fails = pagination_failures [of 300 server_fails_second "[]" "GitHubApiError 500 None"
                 "[]" 2 300]
  have a: "server_404 1 = Response 404 []"
    by (simp add: server_404_def)
  then have a1: "0 < (100 :: nat) \<and> server_404 1 = Response 404 []"
    by simp
  have a2: "0 < (300 :: nat) \<and> fetchGitHub (server_404 1) = Inl NotFound"
    by code_simp
  have b: "fst (fetchUserRepos server_short 100) = Inr (replicate 30 1)"
    by code_simp
  have "snd (fetchUserRepos server_short 100) = [1]"
    by code_simp
  with b have b1: "fst (fetchUserRepos server_short 100) = Inr (replicate 30 1)
                   \<and> 1 \<in> set (snd (fetchUserRepos server_short 100))"
    by simp
  have d: "fetchGitHub (server_fails_second 2) = Inl (GitHubApiError 500 None)"
    by code_simp
  have "snd (fetchUserRepos server_fails_second 300) = [1, 2]"
    by code_simp
  with d have d1: "2 \<in> set (snd (fetchUserRepos server_fails_second 300))
                   \<and> fetchGitHub (server_fails_second 2) = Inl (GitHubApiError 500 None)"
    by simp
  have "snd (fetchUserEvents server_fails_second 300) = [1, 2]"
    by code_simp
  with d have d2: "2 \<in> set (snd (fetchUserEvents server_fails_second 300))
                   \<and> fetchGitHub (server_fails_second 2) = Inl (GitHubApiError 500 None)"
    by simp
  have g: "concat (map (page_items server_fails_second) [1..<2]) = replicate 100 1"
    by code_simp
  have h: "[1..<Suc 2] = [1, 2]"
    by code_simp
  have r1: "fetchUserRepos server_404 100 = (Inl NotFound, [1])"
    using not_found [THEN conjunct1, THEN mp, OF a1] .
  have r2: "fetchUserEvents server_404 300 = (Inr [], [1])"
    using not_found [THEN conjunct2, THEN conjunct2, THEN conjunct2, THEN conjunct1, THEN mp,
            OF a2] .
  have r3: "\<exists>b. fetchGitHub (server_short 1) = Inr b"
    using short [THEN conjunct2, THEN conjunct2, THEN conjunct1, THEN mp, OF b1] .
  have r4: "fetchUserRepos server_fails_second 300
            = (Inl (GitHubApiError 500 None), [1..<Suc 2])"
    using fails [THEN conjunct2, THEN conjunct2, THEN conjunct2, THEN conjunct2,
            THEN conjunct2, THEN conjunct2, THEN conjunct2, THEN conjunct1, THEN mp, OF d1] .
  have r5: "fetchUserEvents server_fails_second 300
            = (Inr (concat (map (page_items server_fails_second) [1..<2])), [1..<Suc 2])"
    using fails [THEN conjunct2, THEN conjunct2, THEN conjunct2, THEN conjunct2,
            THEN conjunct2, THEN conjunct2, THEN conjunct2, THEN conjunct2, THEN mp, OF d2] .
  from r4 have r4': "fetchUserRepos server_fails_second 300
                     = (Inl (GitHubApiError 500 None), [1, 2])"
    by (simp only: h)
  from r5 have r5': "fetchUserEvents server_fails_second 300 = (Inr (replicate 100 1), [1, 2])"
    by (simp only: g h)
  from a r1 r2 b r3 d r4' r5' show ?thesis
    by (intro conjI)
qed

subsection \<open>The synthesized calendar\<close>

lemma insights_calendar_absent:
  "contributionCalendar data = None \<Longrightarrow>
   wi_contributionCalendar (calculateInsights tz now data year) = createEmptyCalendar tz year"
  by (simp add: calculateInsights_def Let_def)

lemma empty_calendar_loop_zero:
  "(\<And>d. d \<in> set currentWeek \<Longrightarrow> contributionCount d = 0) \<Longrightarrow>
   (\<And>w d. w \<in> set ws \<Longrightarrow> d \<in> set (contributionDays w) \<Longrightarrow> contributionCount d = 0) \<Longrightarrow>
   (d \<in> set (fst (empty_calendar_loop tz endDate currentDate currentWeek ws))
      \<longrightarrow> contributionCount d = 0)
   \<and> (w \<in> set (snd (empty_calendar_loop tz endDate currentDate currentWeek ws))
        \<longrightarrow> d \<in> set (contributionDays w) \<longrightarrow> contributionCount d = 0)"
proof (induction tz endDate currentDate currentWeek ws rule: empty_calendar_loop.induct)
  case (1 tz endDate currentDate currentWeek ws)
  show ?case
  proof (cases "currentDate \<le> endDate")
    case False
    with "1.prems" show ?thesis
      by (subst (1 2) empty_calendar_loop.simps) auto
  next
    case True
    show ?thesis
    proof (cases "getDay tz currentDate = 0 \<and> length currentWeek > 0")
      case new_week: True
      have "(d \<in> set (fst (empty_calendar_loop tz endDate (next_day tz currentDate)
                              [empty_day currentDate] (ws @ [\<lparr>contributionDays = currentWeek\<rparr>])))
              \<longrightarrow> contributionCount d = 0)
            \<and> (w \<in> set (snd (empty_calendar_loop tz endDate (next_day tz currentDate)
                                [empty_day currentDate] (ws @ [\<lparr>contributionDays = currentWeek\<rparr>])))
                \<longrightarrow> d \<in> set (contributionDays w) \<longrightarrow> contributionCount d = 0)"
        using "1.prems" by (intro "1.IH"(1) [OF True new_week]) (auto simp: empty_day_def)
      with True new_week show ?thesis
        by (subst (1 2) empty_calendar_loop.simps) simp
    next
      case same_week: False
      have "(d \<in> set (fst (empty_calendar_loop tz endDate (next_day tz currentDate)
                              (currentWeek @ [empty_day currentDate]) ws))
              \<longrightarrow> contributionCount d = 0)
            \<and> (w \<in> set (snd (empty_calendar_loop tz endDate (next_day tz currentDate)
                                (currentWeek @ [empty_day currentDate]) ws))
                \<longrightarrow> d \<in> set (contributionDays w) \<longrightarrow> contributionCount d = 0)"
        using "1.prems" by (intro "1.IH"(2) [OF True same_week]) (auto simp: empty_day_def)
      with True same_week show ?thesis
        by (subst (1 2) empty_calendar_loop.simps) auto
    qed
  qed
qed

lemma createEmptyCalendar_zero:
  "totalContributions (createEmptyCalendar tz year) = 0"
  "d \<in> set (calendar_days (createEmptyCalendar tz year)) \<Longrightarrow> contributionCount d = 0"
proof -
  show "totalContributions (createEmptyCalendar tz year) = 0"
    by (simp add: createEmptyCalendar_def Let_def)
  assume "d \<in> set (calendar_days (createEmptyCalendar tz year))"
  then obtain w where
    w: "d \<in> set (contributionDays w)" "w \<in> set (weeks (createEmptyCalendar tz year))"
    by (auto simp: calendar_days_def)
  define r where "r = empty_calendar_loop tz (new_Date_local tz year 11 31)
                        (new_Date_local tz year 0 1) [] []"
  from w(2) have "w \<in> set (snd r) \<or> contributionDays w = fst r"
    by (auto simp: createEmptyCalendar_def Let_def r_def split: if_splits)
  with w(1) empty_calendar_loop_zero [of "[]" "[]" d tz "new_Date_local tz year 11 31"
                  "new_Date_local tz year 0 1" w]
  show "contributionCount d = 0"
    by (auto simp: r_def)
qed

text \<open>In a time zone that is not east of UTC the days are those of the requested year.\<close>

lemma empty_calendar_dates_utc:
  "date (hd (calendar_days (createEmptyCalendar (fixed_zone 0) 2024)))
     = \<lparr>iso_year = 2024, iso_month = 1, iso_day = 1\<rparr>
   \<and> date (last (calendar_days (createEmptyCalendar (fixed_zone 0) 2024)))
       = \<lparr>iso_year = 2024, iso_month = 12, iso_day = 31\<rparr>
   \<and> length (calendar_days (createEmptyCalendar (fixed_zone 0) 2024)) = 366"
  by code_simp

text \<open>
  Claim C9 holds for the counts and the total, and \<open>calculateInsights\<close> always returns a
  calendar; but the dates are those of the requested year only where local midnight falls
  on the same UTC day. The loop runs over the local days from January 1 to December 31 and
  labels each with the UTC date of its local midnight: in a time zone east of UTC, here
  UTC+05:30, the calendar for 2024 runs from 2023-12-31 to 2024-12-30.
\<close>

theorem empty_calendar_dates_east_of_utc:
  "contributionCalendar data_events = None
   \<and> date (hd (calendar_days (wi_contributionCalendar
                 (calculateInsights (fixed_zone 330) 0 data_events 2024))))
       = \<lparr>iso_year = 2023, iso_month = 12, iso_day = 31\<rparr>
   \<and> date (last (calendar_days (wi_contributionCalendar
                   (calculateInsights (fixed_zone 330) 0 data_events 2024))))
       = \<lparr>iso_year = 2024, iso_month = 12, iso_day = 30\<rparr>
   \<and> length (calendar_days (wi_contributionCalendar
                (calculateInsights (fixed_zone 330) 0 data_events 2024))) = 366"
  by code_simp

end
